theory Spec2Isabelle
  imports Complex_Main "HOL-Library.Char_ord" "HOL-Library.List_Lexorder"
begin

section \<open>Numbers\<close>

text \<open>
  A JavaScript number is modelled as a real number or the not-a-number sentinel.
  Coordinates handed to the geometry functions are finite numbers, so they are plain
  reals; only results can be \<open>NaN\<close>. Rounding of IEEE doubles (and of the 32-bit
  floats behind \<open>vec2\<close>) and the infinities are outside this model: arithmetic is exact.
  Every comparison with \<open>NaN\<close> is false, as in the language.
\<close>

datatype number = NaN | Num real

fun num_ge :: "number \<Rightarrow> real \<Rightarrow> bool" where
  "num_ge NaN b = False"
| "num_ge (Num a) b = (a \<ge> b)"

fun num_le :: "number \<Rightarrow> real \<Rightarrow> bool" where
  "num_le NaN b = False"
| "num_le (Num a) b = (a \<le> b)"

fun num_lt :: "number \<Rightarrow> number \<Rightarrow> bool" where
  "num_lt (Num a) (Num b) = (a < b)"
| "num_lt _ _ = False"

fun num_gt :: "number \<Rightarrow> number \<Rightarrow> bool" where
  "num_gt (Num a) (Num b) = (a > b)"
| "num_gt _ _ = False"

fun num_add :: "number \<Rightarrow> number \<Rightarrow> number" where
  "num_add (Num a) (Num b) = Num (a + b)"
| "num_add _ _ = NaN"

fun num_mul :: "number \<Rightarrow> number \<Rightarrow> number" where
  "num_mul (Num a) (Num b) = Num (a * b)"
| "num_mul _ _ = NaN"

section \<open>Geometry library (GeometryUtil)\<close>

text \<open>
  \<open>Point\<close> is \<open>{x, y}\<close> and \<open>Rect\<close> is \<open>{x, y, width, height}\<close>. The selectors
  of a record are constants of the theory, so the coordinates carry a prefix here
  (\<open>px\<close>, \<open>py\<close>, \<open>rx\<close>, \<open>ry\<close>). A \<open>VectorLike\<close> is a pair of coordinates, index
  0 first.
\<close>

record Point =
  px :: real
  py :: real

record Rect =
  rx :: real
  ry :: real
  width :: real
  height :: real

type_synonym VectorLike = "real \<times> real"

type_synonym vec2 = "number \<times> number"

datatype Corner = nw | ne | sw | se

definition getRectFromPoints :: "Point \<Rightarrow> Point \<Rightarrow> Rect" where
  "getRectFromPoints point1 point2 =
     \<lparr> rx = min (px point1) (px point2),
       ry = min (py point1) (py point2),
       width = \<bar>px point1 - px point2\<bar>,
       height = \<bar>py point1 - py point2\<bar> \<rparr>"

definition getRectFromVectors :: "VectorLike \<Rightarrow> VectorLike \<Rightarrow> Rect" where
  "getRectFromVectors vector1 vector2 =
     \<lparr> rx = min (fst vector1) (fst vector2),
       ry = min (snd vector1) (snd vector2),
       width = \<bar>fst vector1 - fst vector2\<bar>,
       height = \<bar>snd vector1 - snd vector2\<bar> \<rparr>"

definition getCornerPointOfRect :: "Rect \<Rightarrow> Corner \<Rightarrow> Point" where
  "getCornerPointOfRect rect corner =
     \<lparr> px = (if corner = nw \<or> corner = sw then rx rect else rx rect + width rect),
       py = (if corner = nw \<or> corner = ne then ry rect else ry rect + height rect) \<rparr>"

text \<open>
  \<open>intersectPlainLines\<close> writes its two results into \<open>outFactors[0]\<close> and
  \<open>outFactors[1]\<close>; the model returns them as a pair. The test \<open>f == 0\<close> is the
  source's, with no tolerance. The differences, products and quotients are exact
  here; the source rounds each of them to a double. The two agree where every
  intermediate value is a double; elsewhere the source works with the rounded
  values, and \<open>f\<close> can then be zero for directions that are not parallel.
\<close>

definition intersectPlainLines ::
  "real \<Rightarrow> real \<Rightarrow> real \<Rightarrow> real \<Rightarrow> real \<Rightarrow> real \<Rightarrow> real \<Rightarrow> real \<Rightarrow> number \<times> number" where
  "intersectPlainLines startX1 startY1 endX1 endY1 startX2 startY2 endX2 endY2 =
     (let vX1 = endX1 - startX1; vY1 = endY1 - startY1;
          vX2 = endX2 - startX2; vY2 = endY2 - startY2;
          f = vX2 * vY1 - vX1 * vY2
      in if f = 0 then (NaN, NaN)
         else (let vX3 = startX2 - startX1; vY3 = startY2 - startY1
               in (Num ((vX2 * vY3 - vX3 * vY2) / f), Num ((vX1 * vY3 - vX3 * vY1) / f))))"

definition intersectVectorLines ::
  "VectorLike \<Rightarrow> VectorLike \<Rightarrow> VectorLike \<Rightarrow> VectorLike \<Rightarrow> number \<times> number" where
  "intersectVectorLines start1 end1 start2 end2 =
     intersectPlainLines (fst start1) (snd start1) (fst end1) (snd end1)
       (fst start2) (snd start2) (fst end2) (snd end2)"

definition epsilon :: real where
  "epsilon = 1 / 10000000"

text \<open>
  The loop of \<open>cutLineWithPolygon\<close> runs \<open>i\<close> over the indices of the polygon and
  carries \<open>j\<close>, the index of the previous round (\<open>j = i++\<close>), which starts at the last
  index. One round is \<open>cutStep\<close>; its state is \<open>(bestFactor, j)\<close>, with \<open>None\<close> for
  \<open>null\<close>.
\<close>

definition cutStep ::
  "VectorLike \<Rightarrow> VectorLike \<Rightarrow> VectorLike list \<Rightarrow> number option \<times> nat \<Rightarrow> nat
     \<Rightarrow> number option \<times> nat" where
  "cutStep lineStart lineEnd polygonPoints st i =
     (let bestFactor = fst st; j = snd st;
          segmentStart = polygonPoints ! i;
          segmentEnd = polygonPoints ! j;
          outFactors = intersectVectorLines segmentStart segmentEnd lineStart lineEnd
      in (if num_ge (fst outFactors) 0 \<and> num_le (fst outFactors) 1
          then (case bestFactor of
                  None \<Rightarrow> Some (snd outFactors)
                | Some best \<Rightarrow>
                    if (if num_ge (snd outFactors) epsilon \<and> num_ge best epsilon
                        then num_lt (snd outFactors) best
                        else num_gt (snd outFactors) best)
                    then Some (snd outFactors) else Some best)
          else bestFactor,
          i))"

text \<open>
  The result is the returned point (\<open>None\<close> for \<open>null\<close>) together with the value
  written to \<open>outFactor[0]\<close> when the caller passes that array.
\<close>

definition cutLineWithPolygon ::
  "VectorLike \<Rightarrow> VectorLike \<Rightarrow> VectorLike list \<Rightarrow> vec2 option \<times> number" where
  "cutLineWithPolygon lineStart lineEnd polygonPoints =
     (let polygonSize = length polygonPoints;
          bestFactor = fst (foldl (cutStep lineStart lineEnd polygonPoints)
                              (None, polygonSize - 1) [0..<polygonSize])
      in (case bestFactor of
            None \<Rightarrow> (None, NaN)
          | Some b \<Rightarrow>
              (Some (num_add (Num (fst lineStart)) (num_mul b (Num (fst lineEnd - fst lineStart))),
                     num_add (Num (snd lineStart)) (num_mul b (Num (snd lineEnd - snd lineStart)))),
               b)))"

section \<open>Vocabulary of the geometry properties\<close>

text \<open>
  The edges of a polygon are the pairs of a vertex and its cyclic predecessor. An edge
  is crossed within its bounds when its own intersection factor lies between 0 and 1;
  \<open>edgeCrossings\<close> lists the line parameters of those crossings in edge order.
\<close>

definition crossingAt :: "VectorLike \<Rightarrow> VectorLike \<Rightarrow> VectorLike list \<Rightarrow> nat \<Rightarrow> real list" where
  "crossingAt lineStart lineEnd ps i =
     (case intersectVectorLines (ps ! i) (ps ! ((i + length ps - 1) mod length ps))
             lineStart lineEnd of
        (Num s, Num t) \<Rightarrow> if 0 \<le> s \<and> s \<le> 1 then [t] else []
      | _ \<Rightarrow> [])"

definition edgeCrossings :: "VectorLike \<Rightarrow> VectorLike \<Rightarrow> VectorLike list \<Rightarrow> real list" where
  "edgeCrossings lineStart lineEnd ps =
     concat (map (crossingAt lineStart lineEnd ps) [0..<length ps])"

text \<open>
  The parameter the function settles on: the smallest one that is at least
  \<open>epsilon\<close> when there is one, else the largest one, which is the crossing
  nearest to \<open>lineStart\<close> among those behind it.
\<close>

definition nearestAhead :: "real list \<Rightarrow> real" where
  "nearestAhead C = Min (set (filter (\<lambda>t. epsilon \<le> t) C))"

definition nearestBehind :: "real list \<Rightarrow> real" where
  "nearestBehind C = Max (set C)"

definition chosenFactor :: "real list \<Rightarrow> real" where
  "chosenFactor C =
     (if \<exists>t \<in> set C. epsilon \<le> t then nearestAhead C else nearestBehind C)"

definition pointOnLine :: "VectorLike \<Rightarrow> VectorLike \<Rightarrow> real \<Rightarrow> vec2" where
  "pointOnLine lineStart lineEnd t =
     (Num (fst lineStart + t * (fst lineEnd - fst lineStart)),
      Num (snd lineStart + t * (snd lineEnd - snd lineStart)))"

text \<open>One round of the loop on the real line parameters of the crossed edges.\<close>

fun pickFactor :: "real option \<Rightarrow> real \<Rightarrow> real option" where
  "pickFactor None t = Some t"
| "pickFactor (Some b) t =
     (if (if epsilon \<le> t \<and> epsilon \<le> b then t < b else t > b) then Some t else Some b)"

text \<open>
  The same choice by its properties: a crossing that is the least of those at or past
  \<open>epsilon\<close> when there are such, and else the greatest of all.
\<close>

definition isChosen :: "real list \<Rightarrow> real \<Rightarrow> bool" where
  "isChosen C t =
     (t \<in> set C \<and>
      (if \<exists>c \<in> set C. epsilon \<le> c
       then epsilon \<le> t \<and> (\<forall>c \<in> set C. epsilon \<le> c \<longrightarrow> t \<le> c)
       else (\<forall>c \<in> set C. c \<le> t)))"

text \<open>
  The reading "else the crossing with the smallest line parameter overall".
\<close>

definition claimedFactor :: "real list \<Rightarrow> real" where
  "claimedFactor C =
     (if \<exists>t \<in> set C. epsilon \<le> t then nearestAhead C else Min (set C))"

section \<open>Objects with string keys\<close>

text \<open>
  An object used as a dictionary is the list of its own properties in the order
  \<open>Object.keys\<close> and the serializer enumerate them: the order in which the keys
  were first set. (The language puts keys that are array indices, such as \<open>"12"\<close>,
  first; directory paths, the names of photo files and the fields of an edit record
  are not of that form, and the theorems on the store and the registry that are
  stated for every name or path speak of the entries, not of their order.)
  Every object here is created by \<open>{}\<close> or by \<open>JSON.parse\<close>, so its
  prototype is \<open>Object.prototype\<close>, whose members are found by \<open>obj[key]\<close> when
  the object has no own property of that name.
\<close>

type_synonym 'v obj = "(string \<times> 'v) list"

definition objectPrototypeMembers :: "string list" where
  "objectPrototypeMembers =
     [''constructor'', ''__defineGetter__'', ''__defineSetter__'', ''hasOwnProperty'',
      ''__lookupGetter__'', ''__lookupSetter__'', ''isPrototypeOf'', ''propertyIsEnumerable'',
      ''toString'', ''valueOf'', ''__proto__'', ''toLocaleString'']"

text \<open>
  The result of \<open>obj[key]\<close>: the value of an own property, a member of
  \<open>Object.prototype\<close> (a function, or for \<open>__proto__\<close> the prototype itself: in
  either case truthy and neither a record, an array nor an instance), or
  \<open>undefined\<close>.
\<close>

datatype 'v lookup = Own 'v | Inherited | Undefined

definition obj_get :: "'v obj \<Rightarrow> string \<Rightarrow> 'v lookup" where
  "obj_get obj key =
     (case map_of obj key of
        Some v \<Rightarrow> Own v
      | None \<Rightarrow> if key \<in> set objectPrototypeMembers then Inherited else Undefined)"

text \<open>
  \<open>obj_set\<close> writes an own property: a key that is present keeps its place, a new
  key is appended. That is what the assignment \<open>obj[key] = v\<close> does, except when it
  reaches the setter of \<open>__proto__\<close>: for that key, when the object has no own
  property of the name, the assignment records no key; it replaces the prototype of
  the object when \<open>v\<close> is an object and does nothing when \<open>v\<close> is a primitive.
  An object with a replaced prototype is not represented here: \<open>obj_assign\<close>
  answers \<open>None\<close> for it, and the functions that assign under a key they are given
  report \<open>PrototypeReplaced\<close>, from where on the program is outside this model.
  The assignments with a fixed key (\<open>photoWork.tilt = ...\<close>) use \<open>obj_set\<close>.
\<close>

fun obj_set :: "'v obj \<Rightarrow> string \<Rightarrow> 'v \<Rightarrow> 'v obj" where
  "obj_set [] key v = [(key, v)]"
| "obj_set ((k, w) # rest) key v =
     (if k = key then (k, v) # rest else (k, w) # obj_set rest key v)"

definition obj_assign :: "('v \<Rightarrow> bool) \<Rightarrow> 'v obj \<Rightarrow> string \<Rightarrow> 'v \<Rightarrow> 'v obj option" where
  "obj_assign isObject obj key v =
     (if key = ''__proto__'' \<and> map_of obj key = None
      then (if isObject v then None else Some obj)
      else Some (obj_set obj key v))"

definition obj_delete :: "'v obj \<Rightarrow> string \<Rightarrow> 'v obj" where
  "obj_delete obj key = filter (\<lambda>kv. fst kv \<noteq> key) obj"

definition Object_keys :: "'v obj \<Rightarrow> string list" where
  "Object_keys obj = map fst obj"

text \<open>
  \<open>toCanonical\<close>: the keys sorted (by code unit, the default of \<open>sort()\<close>) and
  copied one by one into a fresh object. Every key comes from \<open>Object.keys(obj)\<close>,
  so \<open>obj[key]\<close> is an own property. \<open>isObject\<close> tells which values are objects;
  the result is \<open>None\<close> when a copy replaces the prototype of the fresh object.
\<close>

fun copyKeys :: "('v \<Rightarrow> bool) \<Rightarrow> 'v obj \<Rightarrow> 'v obj \<Rightarrow> string list \<Rightarrow> 'v obj option" where
  "copyKeys isObject obj sortedObj [] = Some sortedObj"
| "copyKeys isObject obj sortedObj (key # keys) =
     (case obj_get obj key of
        Own v \<Rightarrow>
          (case obj_assign isObject sortedObj key v of
             None \<Rightarrow> None
           | Some copied \<Rightarrow> copyKeys isObject obj copied keys)
      | _ \<Rightarrow> copyKeys isObject obj sortedObj keys)"

definition toCanonical :: "('v \<Rightarrow> bool) \<Rightarrow> 'v obj \<Rightarrow> 'v obj option" where
  "toCanonical isObject obj = copyKeys isObject obj [] (sort (Object_keys obj))"

text \<open>
  The values of an edit record (\<open>PhotoWork\<close>): \<open>flagged\<close> is a boolean,
  \<open>rotationTurns\<close> and \<open>tilt\<close> are numbers, \<open>cropRect\<close> is a rectangle. Of
  these only the rectangle is an object; an edit record itself is one.
\<close>

datatype jsvalue = JBool bool | JNumber number | JRect Rect

definition jsvalueIsObject :: "jsvalue \<Rightarrow> bool" where
  "jsvalueIsObject v = (case v of JRect r \<Rightarrow> True | _ \<Rightarrow> False)"

type_synonym PhotoWork = "jsvalue obj"

definition photoWorkIsObject :: "PhotoWork \<Rightarrow> bool" where
  "photoWorkIsObject pw = True"

type_synonym PicasaRules = "string list"

definition picasaRulesIsObject :: "PicasaRules \<Rightarrow> bool" where
  "picasaRulesIsObject rules = True"

record DirectoryWorkData =
  photos :: "PhotoWork obj"

record PicasaData =
  picasaPhotos :: "PicasaRules obj"

record DirectoryData =
  anselData :: DirectoryWorkData
  picasaData :: "PicasaData option"

text \<open>
  What can go wrong in a call: a file that cannot be read or parsed, a
  \<open>TypeError\<close> (a member of \<open>Object.prototype\<close> used as an array or as an
  instance), and the replacement of a prototype, which this model does not follow.
\<close>

datatype failure = FetchFailed | TypeError | PrototypeReplaced

section \<open>Section parser of the legacy sidecar (fetchPicasaIni)\<close>

text \<open>
  Strings are lists of 8-bit characters; the legacy file is ASCII. In a regular
  expression \<open>.\<close> matches every character but a line terminator, and \<open>$\<close> (no
  multiline flag) only the end of the string.
\<close>

definition isLineTerminator :: "char \<Rightarrow> bool" where
  "isLineTerminator c = (c = CHR 0x0A \<or> c = CHR 0x0D)"

definition anyChars :: "string \<Rightarrow> bool" where
  "anyChars s = (\<not> (\<exists>c \<in> set s. isLineTerminator c))"

text \<open>\<open>sectionStartRegExp = /^\[(.*)\]$/\<close>; the result is the group.\<close>

definition matchSectionStart :: "string \<Rightarrow> string option" where
  "matchSectionStart line =
     (case line of
        [] \<Rightarrow> None
      | c # rest \<Rightarrow>
          if c = CHR ''['' \<and> rest \<noteq> [] \<and> last rest = CHR '']'' \<and> anyChars (butlast rest)
          then Some (butlast rest) else None)"

text \<open>
  The state of the line reader's callbacks: the mapping built so far, the key of the
  open section (\<open>None\<close> for \<open>null\<close>) and the rules collected since the last flush.
  \<open>editedPicasaData\<close> is what the recursive call for the parent directory returned
  when this directory holds originals, and \<open>None\<close> otherwise.

  Both callbacks run inside \<open>try\<close> and reject the promise with what was thrown. In
  \<open>flushCurrentSection\<close> the lookup in the edited data can find a member of
  \<open>Object.prototype\<close>, which is truthy and not iterable, so that spreading it
  throws a \<open>TypeError\<close>; and the section \<open>[__proto__]\<close> makes the assignment
  replace the prototype of the mapping. A promise that has been rejected stays
  rejected whatever the later lines do, so the first failure is the result.
\<close>

record parserState =
  parsedPhotos :: "PicasaRules obj"
  currentSectionKey :: "string option"
  currentSectionRules :: "string list"

definition flushCurrentSection :: "PicasaData option \<Rightarrow> parserState \<Rightarrow> failure + parserState" where
  "flushCurrentSection editedPicasaData st =
     (case currentSectionKey st of
        None \<Rightarrow> Inr st
      | Some key \<Rightarrow>
          if key = [] then Inr st
          else
            (case (case editedPicasaData of
                     None \<Rightarrow> Undefined
                   | Some edited \<Rightarrow> obj_get (picasaPhotos edited) key) of
               Inherited \<Rightarrow> Inl TypeError
             | editedSectionRules \<Rightarrow>
                 (let rules =
                        (case editedSectionRules of
                           Own edited \<Rightarrow> currentSectionRules st @ edited
                         | _ \<Rightarrow> currentSectionRules st)
                  in case obj_assign picasaRulesIsObject (parsedPhotos st) key rules of
                       None \<Rightarrow> Inl PrototypeReplaced
                     | Some recorded \<Rightarrow>
                         Inr (st\<lparr> parsedPhotos := recorded,
                                   currentSectionKey := None,
                                   currentSectionRules := [] \<rparr>))))"

definition onLine :: "PicasaData option \<Rightarrow> parserState \<Rightarrow> string \<Rightarrow> failure + parserState" where
  "onLine editedPicasaData st line =
     (case matchSectionStart line of
        Some name \<Rightarrow>
          (case flushCurrentSection editedPicasaData st of
             Inl err \<Rightarrow> Inl err
           | Inr flushed \<Rightarrow> Inr (flushed\<lparr> currentSectionKey := Some name \<rparr>))
      | None \<Rightarrow> Inr (st\<lparr> currentSectionRules := currentSectionRules st @ [line] \<rparr>))"

fun readLines :: "PicasaData option \<Rightarrow> parserState \<Rightarrow> string list \<Rightarrow> failure + parserState" where
  "readLines editedPicasaData st [] = Inr st"
| "readLines editedPicasaData st (line # rest) =
     (case onLine editedPicasaData st line of
        Inl err \<Rightarrow> Inl err
      | Inr st' \<Rightarrow> readLines editedPicasaData st' rest)"

definition parseSections :: "PicasaData option \<Rightarrow> string list \<Rightarrow> failure + PicasaData" where
  "parseSections editedPicasaData lines =
     (case readLines editedPicasaData
             \<lparr> parsedPhotos = [], currentSectionKey = None, currentSectionRules = [] \<rparr>
             lines of
        Inl err \<Rightarrow> Inl err
      | Inr st \<Rightarrow>
          (case flushCurrentSection editedPicasaData st of
             Inl err \<Rightarrow> Inl err
           | Inr flushed \<Rightarrow> Inr \<lparr> picasaPhotos = parsedPhotos flushed \<rparr>))"

text \<open>
  The header names of a file, in the order of the lines.
\<close>

definition headerNames :: "string list \<Rightarrow> string list" where
  "headerNames lines = concat (map (\<lambda>line. case matchSectionStart line of
                                               Some name \<Rightarrow> [name] | None \<Rightarrow> []) lines)"

text \<open>The key that the next flush will record, if any.\<close>

definition openKey :: "parserState \<Rightarrow> string set" where
  "openKey st = (case currentSectionKey st of
                   None \<Rightarrow> {} | Some k \<Rightarrow> if k = [] then {} else {k})"

section \<open>Translation of legacy rules (createPhotoWorkFromPicasaRules)\<close>

subsection \<open>The patterns\<close>

fun stripPrefix :: "string \<Rightarrow> string \<Rightarrow> string option" where
  "stripPrefix [] s = Some s"
| "stripPrefix (p # ps) [] = None"
| "stripPrefix (p # ps) (c # cs) = (if p = c then stripPrefix ps cs else None)"

definition stripSuffix :: "string \<Rightarrow> string \<Rightarrow> string option" where
  "stripSuffix suffix s = map_option rev (stripPrefix (rev suffix) (rev s))"

definition isDigit :: "char \<Rightarrow> bool" where
  "isDigit c = (c \<in> set ''0123456789'')"

definition isLowerHex :: "char \<Rightarrow> bool" where
  "isLowerHex c = (c \<in> set ''0123456789abcdef'')"

definition isTiltChar :: "char \<Rightarrow> bool" where
  "isTiltChar c = (c \<in> set ''-0123456789.'')"

text \<open>\<open>rotateRuleRegExp = /^rotate=rotate\((\d+)\)$/\<close>\<close>

definition matchRotateRule :: "string \<Rightarrow> string option" where
  "matchRotateRule rule =
     (case stripPrefix ''rotate=rotate('' rule of
        None \<Rightarrow> None
      | Some r \<Rightarrow>
          (case stripSuffix '')'' r of
             None \<Rightarrow> None
           | Some d \<Rightarrow> if d \<noteq> [] \<and> list_all isDigit d then Some d else None))"

text \<open>\<open>filtersRuleRegExp = /^filters=(.*)$/\<close>\<close>

definition matchFiltersRule :: "string \<Rightarrow> string option" where
  "matchFiltersRule rule =
     (case stripPrefix ''filters='' rule of
        None \<Rightarrow> None
      | Some r \<Rightarrow> if anyChars r then Some r else None)"

text \<open>\<open>cropRuleRegExp = /^crop=rect64\(([0-9a-f]+)\)$/\<close>\<close>

definition matchCropRule :: "string \<Rightarrow> string option" where
  "matchCropRule rule =
     (case stripPrefix ''crop=rect64('' rule of
        None \<Rightarrow> None
      | Some r \<Rightarrow>
          (case stripSuffix '')'' r of
             None \<Rightarrow> None
           | Some h \<Rightarrow> if h \<noteq> [] \<and> list_all isLowerHex h then Some h else None))"

text \<open>
  \<open>ignoredRulesRegExp = /^([ \t]*$|backuphash=|width=|height=|moddate=|textactive=0)/\<close>
\<close>

definition ignoredRule :: "string \<Rightarrow> bool" where
  "ignoredRule rule =
     (list_all (\<lambda>c. c = CHR '' '' \<or> c = CHR 0x09) rule
      \<or> stripPrefix ''backuphash='' rule \<noteq> None
      \<or> stripPrefix ''width='' rule \<noteq> None
      \<or> stripPrefix ''height='' rule \<noteq> None
      \<or> stripPrefix ''moddate='' rule \<noteq> None
      \<or> stripPrefix ''textactive=0'' rule \<noteq> None)"

text \<open>
  \<open>tiltFilterRegExp = /^tilt=1,([-0-9.]+),0.0*$/\<close>. The group ends at the first
  character outside its class, which has to be the comma; the dot after \<open>,0\<close> is not
  escaped and stands for any character.
\<close>

definition matchTiltFilter :: "string \<Rightarrow> string option" where
  "matchTiltFilter flt =
     (case stripPrefix ''tilt=1,'' flt of
        None \<Rightarrow> None
      | Some r \<Rightarrow>
          (let g = takeWhile isTiltChar r
           in if g = [] then None
              else (case stripPrefix '',0'' (dropWhile isTiltChar r) of
                      None \<Rightarrow> None
                    | Some z \<Rightarrow>
                        (case z of
                           [] \<Rightarrow> None
                         | c # zeros \<Rightarrow>
                             if \<not> isLineTerminator c \<and> list_all (\<lambda>x. x = CHR ''0'') zeros
                             then Some g else None))))"

text \<open>\<open>cropFilterRegExp = /^crop64=1,([0-9a-f]+)$/\<close>\<close>

definition matchCropFilter :: "string \<Rightarrow> string option" where
  "matchCropFilter flt =
     (case stripPrefix ''crop64=1,'' flt of
        None \<Rightarrow> None
      | Some h \<Rightarrow> if h \<noteq> [] \<and> list_all isLowerHex h then Some h else None)"

text \<open>\<open>s.split(sep)\<close> for a one-character separator: never empty.\<close>

fun splitOn :: "char \<Rightarrow> string \<Rightarrow> string list" where
  "splitOn sep [] = [[]]"
| "splitOn sep (c # cs) =
     (if c = sep then [] # splitOn sep cs
      else (case splitOn sep cs of
              w # ws \<Rightarrow> (c # w) # ws
            | [] \<Rightarrow> [[c]]))"

subsection \<open>Reading numbers\<close>

text \<open>
  \<open>parseInt\<close> is only given what the patterns let through: decimal digits for the
  rotation, and groups of four characters of a padded \<open>[0-9a-f]+\<close> string with radix
  16. On such strings it is the value of the digits; white space, signs, a \<open>0x\<close>
  prefix and the not-a-number result cannot occur and are not modelled.
\<close>

definition digitValue :: "char \<Rightarrow> nat" where
  "digitValue c = of_char c - 48"

definition hexValue :: "char \<Rightarrow> nat" where
  "hexValue c = (if isDigit c then of_char c - 48 else of_char c - 87)"

definition parseIntDec :: "string \<Rightarrow> nat" where
  "parseIntDec s = foldl (\<lambda>a c. 10 * a + digitValue c) 0 s"

definition parseIntHex :: "string \<Rightarrow> nat" where
  "parseIntHex s = foldl (\<lambda>a c. 16 * a + hexValue c) 0 s"

text \<open>
  \<open>parseFloat\<close> on a string of the characters \<open>-0-9.\<close>: an optional minus sign,
  then the longest run of digits with at most one dot; not-a-number when that run has
  no digit. What follows the run is ignored.
\<close>

definition parseFloat :: "string \<Rightarrow> number" where
  "parseFloat s =
     (let negative = (case s of c # _ \<Rightarrow> c = CHR ''-'' | [] \<Rightarrow> False);
          r = (if negative then tl s else s);
          intPart = takeWhile isDigit r;
          fracPart = (case dropWhile isDigit r of
                        c # r' \<Rightarrow> if c = CHR ''.'' then takeWhile isDigit r' else []
                      | [] \<Rightarrow> [])
      in if intPart = [] \<and> fracPart = [] then NaN
         else Num ((if negative then - 1 else 1)
                   * (real (parseIntDec intPart)
                      + real (parseIntDec fracPart) / 10 ^ length fracPart)))"

definition substring :: "string \<Rightarrow> nat \<Rightarrow> nat \<Rightarrow> string" where
  "substring s a b = take (b - a) (drop a s)"

subsection \<open>Collaborators outside this module\<close>

text \<open>
  \<open>rotate\<close> (EffectsUtil), \<open>createProjectionMatrix\<close> (CameraMetrics),
  \<open>vec2.transformMat4\<close> (gl-matrix) and \<open>cornerPointOfRect\<close>, \<open>centerOfRect\<close>,
  \<open>scaleRectToFitBorders\<close> (GeometryUtil) are parameters of the translation; \<open>'m\<close>
  is the type of matrices.
\<close>

record 'm externals =
  rotate :: "PhotoWork \<Rightarrow> nat \<Rightarrow> bool \<Rightarrow> PhotoWork"
  createProjectionMatrix :: "real \<times> real \<Rightarrow> PhotoWork \<Rightarrow> 'm"
  transformMat4 :: "VectorLike \<Rightarrow> 'm \<Rightarrow> VectorLike"
  cornerPointOfRect :: "Rect \<Rightarrow> Corner \<Rightarrow> VectorLike"
  centerOfRect :: "Rect \<Rightarrow> VectorLike"
  scaleRectToFitBorders :: "VectorLike \<Rightarrow> real \<times> real \<Rightarrow> VectorLike list \<Rightarrow> Rect"

text \<open>
  Modelled from the spec: \<open>rectFromPoints\<close> of GeometryUtil, which this module
  calls on two coordinate pairs, is not among the sources under that name. The spec
  gives it as the order-independent construction by minimum and absolute difference,
  which is the body of \<open>getRectFromVectors\<close> above.
\<close>

definition rectFromPoints :: "VectorLike \<Rightarrow> VectorLike \<Rightarrow> Rect" where
  "rectFromPoints point1 point2 =
     \<lparr> rx = min (fst point1) (fst point2),
       ry = min (snd point1) (snd point2),
       width = \<bar>fst point1 - fst point2\<bar>,
       height = \<bar>snd point1 - snd point2\<bar> \<rparr>"

subsection \<open>The loop over the rules\<close>

text \<open>
  The loop changes the edit record, the packed crop value seen first
  (\<open>picasaCropRect\<close>, \<open>None\<close> for \<open>null\<close>) and the list of import problems.
\<close>

record importState =
  photoWork :: PhotoWork
  picasaCropRect :: "string option"
  importProblems :: "string list"

text \<open>
  The block that the loop runs on a packed crop value, for a \<open>crop64\<close> filter and
  for a \<open>crop=\<close> rule alike. \<open>!picasaCropRect\<close> holds for \<open>null\<close> and for the
  empty string.
\<close>

definition seeCropRect :: "importState \<Rightarrow> string \<Rightarrow> importState" where
  "seeCropRect st m =
     (case picasaCropRect st of
        None \<Rightarrow> st\<lparr> picasaCropRect := Some m \<rparr>
      | Some seen \<Rightarrow>
          if seen = [] then st\<lparr> picasaCropRect := Some m \<rparr>
          else if seen \<noteq> m
          then st\<lparr> importProblems :=
                     importProblems st @ [''Duplicate crop rects: '' @ seen @ '' and '' @ m] \<rparr>
          else st)"

text \<open>
  \<open>photoWork.tilt || 0\<close>: the field is a number when it is there; a missing field,
  zero and not-a-number all give 0.
\<close>

definition tiltOrZero :: "PhotoWork \<Rightarrow> number" where
  "tiltOrZero pw =
     (case obj_get pw ''tilt'' of
        Own (JNumber (Num t)) \<Rightarrow> Num t
      | _ \<Rightarrow> Num 0)"

definition applyFilter :: "importState \<Rightarrow> string \<Rightarrow> importState" where
  "applyFilter st flt =
     (case matchTiltFilter flt of
        Some g \<Rightarrow>
          (let picasaTilt = parseFloat g
           in st\<lparr> photoWork :=
                    obj_set (photoWork st) ''tilt''
                      (JNumber (num_add (tiltOrZero (photoWork st))
                                  (num_mul picasaTilt (Num (- 113848 / 10000))))) \<rparr>)
      | None \<Rightarrow>
          (case matchCropFilter flt of
             Some m \<Rightarrow> seeCropRect st m
           | None \<Rightarrow>
               if flt \<noteq> []
               then st\<lparr> importProblems := importProblems st @ [''Unknown filter: '' @ flt] \<rparr>
               else st))"

definition applyRule :: "'m externals \<Rightarrow> importState \<Rightarrow> string \<Rightarrow> importState" where
  "applyRule ext st rule =
     (case matchRotateRule rule of
        Some d \<Rightarrow> st\<lparr> photoWork := rotate ext (photoWork st) (parseIntDec d) False \<rparr>
      | None \<Rightarrow>
          if rule = ''star=yes''
          then st\<lparr> photoWork := obj_set (photoWork st) ''flagged'' (JBool True) \<rparr>
          else
            (case matchFiltersRule rule of
               Some filters \<Rightarrow> foldl applyFilter st (splitOn CHR '';'' filters)
             | None \<Rightarrow>
                 (case matchCropRule rule of
                    Some m \<Rightarrow> seeCropRect st m
                  | None \<Rightarrow>
                      if \<not> ignoredRule rule
                      then st\<lparr> importProblems := importProblems st @ [''Unknown rule: '' @ rule] \<rparr>
                      else st)))"

definition scanRules :: "'m externals \<Rightarrow> PicasaRules \<Rightarrow> importState" where
  "scanRules ext picasaRules =
     foldl (applyRule ext)
       \<lparr> photoWork = [], picasaCropRect = None, importProblems = [] \<rparr> picasaRules"

subsection \<open>The crop rectangle\<close>

text \<open>The loop \<open>while (picasaCropRect.length < 16) picasaCropRect = '0' + picasaCropRect\<close>.\<close>

function padTo16 :: "string \<Rightarrow> string" where
  "padTo16 s = (if length s < 16 then padTo16 (CHR ''0'' # s) else s)"
  by pat_completeness auto
termination
  by (relation "measure (\<lambda>s. 16 - length s)") auto

declare padTo16.simps [simp del]

text \<open>
  The rectangle of a packed value of at most 16 digits, in the pixels of the master
  image and before rotation and tilt are reconciled: lines 326 to 336.
\<close>

definition decodeCropRect :: "string \<Rightarrow> real \<Rightarrow> real \<Rightarrow> Rect" where
  "decodeCropRect packed masterWidth masterHeight =
     (let padded = padTo16 packed
      in rectFromPoints
           (real (parseIntHex (substring padded 0 4)) / 65535 * masterWidth,
            real (parseIntHex (substring padded 4 8)) / 65535 * masterHeight)
           (real (parseIntHex (substring padded 8 12)) / 65535 * masterWidth,
            real (parseIntHex (substring padded 12 16)) / 65535 * masterHeight))"

text \<open>
  \<open>picasaCanvasRect\<close> with the problems after it: the decoded rectangle, or the
  whole master image when there is no packed value or it is longer than 16 digits.
\<close>

definition canvasRect :: "importState \<Rightarrow> real \<Rightarrow> real \<Rightarrow> Rect \<times> string list" where
  "canvasRect st masterWidth masterHeight =
     (let whole = \<lparr> rx = 0, ry = 0, width = masterWidth, height = masterHeight \<rparr>
      in case picasaCropRect st of
           None \<Rightarrow> (whole, importProblems st)
         | Some c \<Rightarrow>
             if c = [] then (whole, importProblems st)
             else if length c > 16
             then (whole, importProblems st @ [''Invalid crop rect (length > 16): '' @ c])
             else (decodeCropRect c masterWidth masterHeight, importProblems st))"

text \<open>Lines 348 to 361: the crop rectangle in the frame of the rotated and tilted image.\<close>

definition fitCropRect :: "'m externals \<Rightarrow> PhotoWork \<Rightarrow> Rect \<Rightarrow> real \<Rightarrow> real \<Rightarrow> Rect" where
  "fitCropRect ext pw picasaCanvasRect masterWidth masterHeight =
     (let projectionMatrix = createProjectionMatrix ext (masterWidth, masterHeight) pw;
          borderPolygon =
            [transformMat4 ext (cornerPointOfRect ext picasaCanvasRect nw) projectionMatrix,
             transformMat4 ext (cornerPointOfRect ext picasaCanvasRect ne) projectionMatrix,
             transformMat4 ext (cornerPointOfRect ext picasaCanvasRect se) projectionMatrix,
             transformMat4 ext (cornerPointOfRect ext picasaCanvasRect sw) projectionMatrix];
          projectedCropRectCenter =
            transformMat4 ext (centerOfRect ext picasaCanvasRect) projectionMatrix;
          projectedCropRectSize =
            (if obj_get pw ''rotationTurns'' = Own (JNumber (Num 1))
                \<or> obj_get pw ''rotationTurns'' = Own (JNumber (Num 3))
             then (height picasaCanvasRect, width picasaCanvasRect)
             else (width picasaCanvasRect, height picasaCanvasRect))
      in scaleRectToFitBorders ext projectedCropRectCenter projectedCropRectSize borderPolygon)"

definition hasTilt :: "PhotoWork \<Rightarrow> bool" where
  "hasTilt pw =
     (case obj_get pw ''tilt'' of
        Own (JNumber (Num t)) \<Rightarrow> t \<noteq> 0
      | _ \<Rightarrow> False)"

definition hasCropRect :: "importState \<Rightarrow> bool" where
  "hasCropRect st = (case picasaCropRect st of None \<Rightarrow> False | Some c \<Rightarrow> c \<noteq> [])"

text \<open>
  The translation returns the edit record; the problems it collected go to
  \<open>console.warn\<close> in one message. \<open>importPicasaRules\<close> gives both.
\<close>

definition importPicasaRules ::
  "'m externals \<Rightarrow> PicasaRules \<Rightarrow> real \<Rightarrow> real \<Rightarrow> PhotoWork \<times> string list" where
  "importPicasaRules ext picasaRules masterWidth masterHeight =
     (let st = scanRules ext picasaRules
      in if hasCropRect st \<or> hasTilt (photoWork st)
         then (let canvas = canvasRect st masterWidth masterHeight
               in (obj_set (photoWork st) ''cropRect''
                     (JRect (fitCropRect ext (photoWork st) (fst canvas) masterWidth masterHeight)),
                   snd canvas))
         else (photoWork st, importProblems st))"

definition createPhotoWorkFromPicasaRules ::
  "'m externals \<Rightarrow> PicasaRules \<Rightarrow> string \<Rightarrow> string \<Rightarrow> real \<Rightarrow> real \<Rightarrow> PhotoWork" where
  "createPhotoWorkFromPicasaRules ext picasaRules directoryPath photoBasename
       masterWidth masterHeight =
     fst (importPicasaRules ext picasaRules masterWidth masterHeight)"

definition importWarning ::
  "'m externals \<Rightarrow> PicasaRules \<Rightarrow> string \<Rightarrow> string \<Rightarrow> real \<Rightarrow> real \<Rightarrow> string option" where
  "importWarning ext picasaRules directoryPath photoBasename masterWidth masterHeight =
     (let problems = snd (importPicasaRules ext picasaRules masterWidth masterHeight)
      in if problems \<noteq> []
         then Some (foldl (\<lambda>msg problem. msg @ [CHR 0x0A] @ ''  - '' @ problem)
                      (''Picasa import is incomplete for '' @ directoryPath @ ''/''
                         @ photoBasename @ '':'')
                      problems)
         else None)"

section \<open>Vocabulary of the translation properties\<close>

text \<open>
  A packed crop value is four groups of four hexadecimal digits: \<open>hex4\<close> writes a
  number below 65536 as such a group, with the digits the patterns accept.
\<close>

definition hexDigit :: "nat \<Rightarrow> char" where
  "hexDigit d = ''0123456789abcdef'' ! d"

definition hex4 :: "nat \<Rightarrow> string" where
  "hex4 n = [hexDigit (n div 4096 mod 16), hexDigit (n div 256 mod 16),
             hexDigit (n div 16 mod 16), hexDigit (n mod 16)]"

text \<open>
  The packed crop values of a rule list in the order the loop meets them: those of the
  \<open>crop64\<close> filters of a \<open>filters=\<close> rule, and that of a \<open>crop=\<close> rule.
\<close>

definition cropValuesOfFilter :: "string \<Rightarrow> string list" where
  "cropValuesOfFilter flt = (case matchCropFilter flt of Some v \<Rightarrow> [v] | None \<Rightarrow> [])"

definition cropValuesOfRule :: "string \<Rightarrow> string list" where
  "cropValuesOfRule rule =
     (case matchFiltersRule rule of
        Some filters \<Rightarrow> concat (map cropValuesOfFilter (splitOn CHR '';'' filters))
      | None \<Rightarrow> (case matchCropRule rule of Some v \<Rightarrow> [v] | None \<Rightarrow> []))"

definition cropValues :: "PicasaRules \<Rightarrow> string list" where
  "cropValues rules = concat (map cropValuesOfRule rules)"

text \<open>
  The duplicate-crop problems of a list of import problems, and those that a sequence
  of packed values calls for: one for each value after the first that differs from the
  first, naming both.
\<close>

definition duplicateCropProblems :: "string list \<Rightarrow> string list" where
  "duplicateCropProblems problems =
     filter (\<lambda>p. stripPrefix ''Duplicate crop rects: '' p \<noteq> None) problems"

definition expectedDuplicates :: "string list \<Rightarrow> string list" where
  "expectedDuplicates vs =
     (case vs of
        [] \<Rightarrow> []
      | v # later \<Rightarrow>
          map (\<lambda>w. ''Duplicate crop rects: '' @ v @ '' and '' @ w) (filter (\<lambda>w. w \<noteq> v) later))"

definition firstSeen :: "string list \<Rightarrow> string option" where
  "firstSeen vs = (case vs of [] \<Rightarrow> None | v # _ \<Rightarrow> Some v)"

text \<open>What the loop maintains, in terms of the packed values met so far.\<close>

definition cropInv :: "importState \<Rightarrow> string list \<Rightarrow> bool" where
  "cropInv st vs =
     (list_all (\<lambda>v. v \<noteq> []) vs
      \<and> picasaCropRect st = firstSeen vs
      \<and> duplicateCropProblems (importProblems st) = expectedDuplicates vs)"

section \<open>The cache of one directory (DirectoryWork)\<close>

text \<open>
  What a fetch finds on disk for one directory. \<open>ansel.json\<close> is missing, holds
  data (the serializer and \<open>JSON.parse\<close> are inverse to each other on it, so the
  file is its parsed content), or cannot be read or parsed. \<open>picasaIni\<close> is the
  lines of the first of \<open>.picasa.ini\<close> and \<open>Picasa.ini\<close> that exists.
  \<open>editedPicasaData\<close> is the result of \<open>fetchPicasaIni\<close> for the parent
  directory when this directory holds originals, and \<open>None\<close> otherwise.
  A file that cannot be read or parsed makes the fetch fail with \<open>FetchFailed\<close>.
\<close>

datatype 'a diskFile = Missing | Content 'a | Unreadable

record directoryFiles =
  anselJson :: "DirectoryWorkData diskFile"
  picasaIni :: "string list option"
  editedPicasaData :: "PicasaData option"

text \<open>
  The state of an instance. A promise in \<open>runningFetch\<close> is modelled by the outcome
  it will settle with; awaiting it settles it. The functions below run one awaited
  call to its end; the timer of the store cycle is a step of its own.
\<close>

record DirectoryWork =
  directoryPath :: string
  data :: "DirectoryData option"
  lastFetchTime :: nat
  runningFetch :: "(failure + DirectoryData) option"
  isStoreRunning :: bool
  needsStoreFollowup :: bool

definition refetchInterval :: nat where
  "refetchInterval = 30000"

definition isIdle :: "DirectoryWork \<Rightarrow> bool" where
  "isIdle dw = (runningFetch dw = None \<and> \<not> isStoreRunning dw \<and> \<not> needsStoreFollowup dw)"

definition fetchAnselJson :: "directoryFiles \<Rightarrow> failure + DirectoryWorkData" where
  "fetchAnselJson files =
     (case anselJson files of
        Missing \<Rightarrow> Inr \<lparr> photos = [] \<rparr>
      | Content d \<Rightarrow> Inr d
      | Unreadable \<Rightarrow> Inl FetchFailed)"

definition fetchPicasaIni :: "directoryFiles \<Rightarrow> failure + PicasaData option" where
  "fetchPicasaIni files =
     (case picasaIni files of
        None \<Rightarrow> Inr None
      | Some lines \<Rightarrow>
          (case parseSections (editedPicasaData files) lines of
             Inl err \<Rightarrow> Inl err
           | Inr parsed \<Rightarrow> Inr (Some parsed)))"

text \<open>
  \<open>Promise.all\<close> of the two fetches: it fails when one of them fails. (When both
  fail it fails with the failure that comes first in time; here with that of
  \<open>ansel.json\<close>.)
\<close>

definition readDirectory :: "directoryFiles \<Rightarrow> failure + DirectoryData" where
  "readDirectory files =
     (case fetchAnselJson files of
        Inl err \<Rightarrow> Inl err
      | Inr a \<Rightarrow>
          (case fetchPicasaIni files of
             Inl err \<Rightarrow> Inl err
           | Inr p \<Rightarrow> Inr \<lparr> anselData = a, picasaData = p \<rparr>))"

definition settleFetch ::
  "DirectoryWork \<Rightarrow> nat \<Rightarrow> failure + DirectoryData
     \<Rightarrow> (failure + DirectoryData) \<times> DirectoryWork" where
  "settleFetch dw now outcome =
     (case outcome of
        Inr d \<Rightarrow> (Inr d, dw\<lparr> data := Some d, lastFetchTime := now, runningFetch := None \<rparr>)
      | Inl e \<Rightarrow> (Inl e, dw\<lparr> runningFetch := None \<rparr>))"

definition fetchData ::
  "DirectoryWork \<Rightarrow> directoryFiles \<Rightarrow> nat \<Rightarrow> (failure + DirectoryData) \<times> DirectoryWork" where
  "fetchData dw files now =
     (let refetch = (case runningFetch dw of
                       Some running \<Rightarrow> settleFetch dw now running
                     | None \<Rightarrow> settleFetch dw now (readDirectory files))
      in case data dw of
           Some d \<Rightarrow>
             if isStoreRunning dw \<or> needsStoreFollowup dw
                \<or> now < lastFetchTime dw + refetchInterval
             then (Inr d, dw)
             else refetch
         | None \<Rightarrow> refetch)"

text \<open>
  What \<open>fetchPhotoWork\<close> resolves to: an edit record, or, when the basename is the
  name of a member of \<open>Object.prototype\<close> and the own mapping has no own property
  of that name, that member (\<open>data.anselData.photos[photoBasename]\<close> is truthy
  then, and it is returned as it is). The same lookup in the legacy mapping would
  make the loop over the rules throw a \<open>TypeError\<close>.
\<close>

datatype fetched = Work PhotoWork | PrototypeMember string

definition fetchPhotoWork ::
  "'m externals \<Rightarrow> DirectoryWork \<Rightarrow> directoryFiles \<Rightarrow> nat \<Rightarrow> string \<Rightarrow> real \<Rightarrow> real
     \<Rightarrow> (failure + fetched) \<times> DirectoryWork" where
  "fetchPhotoWork ext dw files now photoBasename masterWidth masterHeight =
     (case fetchData dw files now of
        (Inl e, dw') \<Rightarrow> (Inl e, dw')
      | (Inr d, dw') \<Rightarrow>
          (case obj_get (photos (anselData d)) photoBasename of
             Own pw \<Rightarrow> (Inr (Work pw), dw')
           | Inherited \<Rightarrow> (Inr (PrototypeMember photoBasename), dw')
           | Undefined \<Rightarrow>
               (case picasaData d of
                  None \<Rightarrow> (Inr (Work []), dw')
                | Some legacy \<Rightarrow>
                    (case obj_get (picasaPhotos legacy) photoBasename of
                       Own picasaRules \<Rightarrow>
                         (Inr (Work (createPhotoWorkFromPicasaRules ext picasaRules
                                       (directoryPath dw) photoBasename
                                       masterWidth masterHeight)), dw')
                     | Inherited \<Rightarrow> (Inl TypeError, dw')
                     | Undefined \<Rightarrow> (Inr (Work []), dw')))))"

definition onDataChanged :: "DirectoryWork \<Rightarrow> DirectoryWork" where
  "onDataChanged dw =
     (if isStoreRunning dw then dw\<lparr> needsStoreFollowup := True \<rparr>
      else dw\<lparr> isStoreRunning := True \<rparr>)"

text \<open>
  \<open>storePhotoWork\<close> changes the snapshot it got from \<open>fetchData\<close>, which is the
  object in \<open>this.data\<close>. \<open>isNew\<close> is read after the assignment, as in the source;
  an edit record is an object, so it is truthy whenever it is there. The result
  \<open>PrototypeReplaced\<close> is not a failure of the program: it marks a call in which an
  assignment under \<open>__proto__\<close> has replaced a prototype (of the canonical copy of the
  record, or of the own mapping), which is as far as this model goes; the state it
  gives with it is the one before the change.
\<close>

definition storePhotoWork ::
  "DirectoryWork \<Rightarrow> directoryFiles \<Rightarrow> nat \<Rightarrow> string \<Rightarrow> PhotoWork
     \<Rightarrow> (failure + unit) \<times> DirectoryWork" where
  "storePhotoWork dw files now photoBasename work =
     (case fetchData dw files now of
        (Inl e, dw') \<Rightarrow> (Inl e, dw')
      | (Inr d, dw') \<Rightarrow>
          (let anselPhotos = photos (anselData d);
               isEmpty = (length (Object_keys work) = 0);
               changed =
                 (if isEmpty then Some (obj_delete anselPhotos photoBasename)
                  else
                    (case toCanonical jsvalueIsObject work of
                       None \<Rightarrow> None
                     | Some canonical \<Rightarrow>
                         (case obj_assign photoWorkIsObject anselPhotos photoBasename canonical of
                            None \<Rightarrow> None
                          | Some assigned \<Rightarrow>
                              (let isNew = (obj_get assigned photoBasename = Undefined)
                               in if isNew then toCanonical photoWorkIsObject assigned
                                  else Some assigned))))
           in case changed of
                None \<Rightarrow> (Inl PrototypeReplaced, dw')
              | Some changedPhotos \<Rightarrow>
                  (let d' = d\<lparr> anselData := (anselData d)\<lparr> photos := changedPhotos \<rparr> \<rparr>
                   in (Inr (), onDataChanged (dw'\<lparr> data := Some d' \<rparr>)))))"

text \<open>
  The store cycle after its delay: it clears the follow-up flag and removes or writes
  \<open>ansel.json\<close>; \<open>ioOk\<close> tells whether the file operation succeeds. The first
  component of the result is whether the cycle completed.
\<close>

definition storeCycleWrite ::
  "DirectoryWork \<Rightarrow> directoryFiles \<Rightarrow> bool \<Rightarrow> bool \<times> DirectoryWork \<times> directoryFiles" where
  "storeCycleWrite dw files ioOk =
     (let dw1 = dw\<lparr> needsStoreFollowup := False \<rparr>
      in case (case data dw of
                 None \<Rightarrow> None
               | Some d \<Rightarrow> if length (Object_keys (photos (anselData d))) = 0 then None
                           else Some (anselData d)) of
           None \<Rightarrow>
             if anselJson files \<noteq> Missing
             then (if ioOk then (True, dw1, files\<lparr> anselJson := Missing \<rparr>)
                   else (False, dw1, files))
             else (True, dw1, files)
         | Some a \<Rightarrow>
             if ioOk then (True, dw1, files\<lparr> anselJson := Content a \<rparr>)
             else (False, dw1, files))"

text \<open>The two handlers of the store promise.\<close>

definition storeCycleSettled :: "bool \<Rightarrow> DirectoryWork \<Rightarrow> DirectoryWork" where
  "storeCycleSettled completed dw =
     (if completed
      then (let dw1 = dw\<lparr> isStoreRunning := False \<rparr>
            in if needsStoreFollowup dw1 then onDataChanged dw1 else dw1)
      else dw\<lparr> isStoreRunning := False \<rparr>)"

definition storeCycle ::
  "DirectoryWork \<Rightarrow> directoryFiles \<Rightarrow> bool \<Rightarrow> DirectoryWork \<times> directoryFiles" where
  "storeCycle dw files ioOk =
     (case storeCycleWrite dw files ioOk of
        (completed, dw1, files1) \<Rightarrow> (storeCycleSettled completed dw1, files1))"

section \<open>The registry of directory caches\<close>

text \<open>
  The module keeps the instances by path and counts them in a variable of its own.
  An instance in the mapping is the object itself, so a change of an instance is a
  change of its entry.
\<close>

record registry =
  directoryWorkByPath :: "DirectoryWork obj"
  directoryWorkCacheSize :: int

definition maxDirectoryWorkCacheSize :: int where
  "maxDirectoryWorkCacheSize = 100"

definition newDirectoryWork :: "string \<Rightarrow> DirectoryWork" where
  "newDirectoryWork path =
     \<lparr> directoryPath = path, data = None, lastFetchTime = 0, runningFetch = None,
       isStoreRunning = False, needsStoreFollowup = False \<rparr>"

text \<open>
  One round of the sweep over \<open>Object.keys(directoryWorkByPath)\<close>. Every path
  of the loop is an own key of the mapping, and a round deletes no other key, so the
  lookup finds an instance.
\<close>

definition sweepStep :: "registry \<Rightarrow> string \<Rightarrow> registry" where
  "sweepStep reg path =
     (case obj_get (directoryWorkByPath reg) path of
        Own cachedDirectoryWork \<Rightarrow>
          if isIdle cachedDirectoryWork
          then reg\<lparr> directoryWorkByPath := obj_delete (directoryWorkByPath reg) path,
                   directoryWorkCacheSize := directoryWorkCacheSize reg - 1 \<rparr>
          else reg
      | _ \<Rightarrow> reg)"

text \<open>
  \<open>getDirectoryWork\<close> returns what the lookup finds when that is truthy: an
  instance, or a member of \<open>Object.prototype\<close> when the path is the name of one
  (\<open>None\<close> here). Only when the lookup gives \<open>undefined\<close> does it sweep and
  insert; the path is then not \<open>__proto__\<close>, so the assignment records the key.
\<close>

definition getDirectoryWork :: "registry \<Rightarrow> string \<Rightarrow> DirectoryWork option \<times> registry" where
  "getDirectoryWork reg path =
     (case obj_get (directoryWorkByPath reg) path of
        Own directoryWork \<Rightarrow> (Some directoryWork, reg)
      | Inherited \<Rightarrow> (None, reg)
      | Undefined \<Rightarrow>
          (let swept =
                 (if directoryWorkCacheSize reg \<ge> maxDirectoryWorkCacheSize
                  then foldl sweepStep reg (Object_keys (directoryWorkByPath reg))
                  else reg);
               directoryWork = newDirectoryWork path
           in (Some directoryWork,
               swept\<lparr> directoryWorkByPath := obj_set (directoryWorkByPath swept) path directoryWork,
                      directoryWorkCacheSize := directoryWorkCacheSize swept + 1 \<rparr>)))"

text \<open>
  The exported functions look the instance up and call its method; the instance they
  change is the one in the mapping. \<open>exportedFetchPhotoWork\<close> and
  \<open>exportedStorePhotoWork\<close> are the module's \<open>fetchPhotoWork\<close> and
  \<open>storePhotoWork\<close>; \<open>files\<close> is what is on disk for that directory. A member of
  \<open>Object.prototype\<close> has no such method: the call throws a \<open>TypeError\<close>.
\<close>

definition exportedFetchPhotoWork ::
  "'m externals \<Rightarrow> registry \<Rightarrow> directoryFiles \<Rightarrow> nat \<Rightarrow> string \<Rightarrow> string \<Rightarrow> real \<Rightarrow> real
     \<Rightarrow> (failure + fetched) \<times> registry" where
  "exportedFetchPhotoWork ext reg files now photoDir photoFileName masterWidth masterHeight =
     (case getDirectoryWork reg photoDir of
        (None, reg1) \<Rightarrow> (Inl TypeError, reg1)
      | (Some dw, reg1) \<Rightarrow>
          (case fetchPhotoWork ext dw files now photoFileName masterWidth masterHeight of
             (result, dw') \<Rightarrow>
               (result,
                reg1\<lparr> directoryWorkByPath := obj_set (directoryWorkByPath reg1) photoDir dw' \<rparr>)))"

definition exportedStorePhotoWork ::
  "registry \<Rightarrow> directoryFiles \<Rightarrow> nat \<Rightarrow> string \<Rightarrow> string \<Rightarrow> PhotoWork
     \<Rightarrow> (failure + unit) \<times> registry" where
  "exportedStorePhotoWork reg files now photoDir photoFileName work =
     (case getDirectoryWork reg photoDir of
        (None, reg1) \<Rightarrow> (Inl TypeError, reg1)
      | (Some dw, reg1) \<Rightarrow>
          (case storePhotoWork dw files now photoFileName work of
             (result, dw') \<Rightarrow>
               (result,
                reg1\<lparr> directoryWorkByPath := obj_set (directoryWorkByPath reg1) photoDir dw' \<rparr>)))"

definition removePhotoWork ::
  "registry \<Rightarrow> directoryFiles \<Rightarrow> nat \<Rightarrow> string \<Rightarrow> string \<Rightarrow> (failure + unit) \<times> registry" where
  "removePhotoWork reg files now photoDir photoFileName =
     exportedStorePhotoWork reg files now photoDir photoFileName []"

text \<open>The timer of a running store cycle of the instance of a directory fires.\<close>

definition storeTimerFired :: "registry \<Rightarrow> directoryFiles \<Rightarrow> bool \<Rightarrow> string \<Rightarrow> registry" where
  "storeTimerFired reg files ioOk photoDir =
     (case obj_get (directoryWorkByPath reg) photoDir of
        Own dw \<Rightarrow>
          if isStoreRunning dw
          then reg\<lparr> directoryWorkByPath :=
                     obj_set (directoryWorkByPath reg) photoDir (fst (storeCycle dw files ioOk)) \<rparr>
          else reg
      | _ \<Rightarrow> reg)"

definition emptyRegistry :: registry where
  "emptyRegistry = \<lparr> directoryWorkByPath = [], directoryWorkCacheSize = 0 \<rparr>"

text \<open>
  The counter agrees with the mapping, whose keys are distinct: this holds at the
  start and every operation keeps it, whatever the state of the instances. The
  registry after a sequence of requests for directories; the entries that are not
  idle.
\<close>

definition consistent :: "registry \<Rightarrow> bool" where
  "consistent reg =
     (distinct (Object_keys (directoryWorkByPath reg))
      \<and> directoryWorkCacheSize reg = int (length (directoryWorkByPath reg)))"

definition accessAll :: "registry \<Rightarrow> string list \<Rightarrow> registry" where
  "accessAll reg paths = foldl (\<lambda>r path. snd (getDirectoryWork r path)) reg paths"

definition busyEntries :: "DirectoryWork obj \<Rightarrow> DirectoryWork obj" where
  "busyEntries entries = filter (\<lambda>entry. \<not> isIdle (snd entry)) entries"

section \<open>Vocabulary of the store properties\<close>

text \<open>
  The own record and the legacy rules of a photo in a snapshot, and the same for the
  snapshot an instance holds.
\<close>

definition ownRecord :: "DirectoryData \<Rightarrow> string \<Rightarrow> PhotoWork option" where
  "ownRecord d name = map_of (photos (anselData d)) name"

definition legacyRules :: "DirectoryData \<Rightarrow> string \<Rightarrow> PicasaRules option" where
  "legacyRules d name =
     (case picasaData d of None \<Rightarrow> None | Some legacy \<Rightarrow> map_of (picasaPhotos legacy) name)"

definition ownMapping :: "DirectoryWork \<Rightarrow> PhotoWork obj" where
  "ownMapping dw = (case data dw of None \<Rightarrow> [] | Some d \<Rightarrow> photos (anselData d))"

definition snapshotLegacyRules :: "DirectoryWork \<Rightarrow> string \<Rightarrow> PicasaRules option" where
  "snapshotLegacyRules dw name = (case data dw of None \<Rightarrow> None | Some d \<Rightarrow> legacyRules d name)"

text \<open>
  Examples. Collaborators for evaluating translations that do not depend on them, an
  empty directory, a directory with both sidecars and its snapshot, the states after
  storing a record and after removing it, and a directory with a legacy sidecar only
  with its state after the empty record was stored for \<open>a.jpg\<close>.
\<close>

definition plainCollaborators :: "unit externals" where
  "plainCollaborators =
     \<lparr> rotate = (\<lambda>pw degrees flipped. pw),
       createProjectionMatrix = (\<lambda>size pw. ()),
       transformMat4 = (\<lambda>v m. v),
       cornerPointOfRect = (\<lambda>rect corner. (rx rect, ry rect)),
       centerOfRect = (\<lambda>rect. (rx rect, ry rect)),
       scaleRectToFitBorders = (\<lambda>center size polygon.
          \<lparr> rx = fst center, ry = snd center, width = fst size, height = snd size \<rparr>) \<rparr>"

definition sampleFiles :: directoryFiles where
  "sampleFiles = \<lparr> anselJson = Missing, picasaIni = None, editedPicasaData = None \<rparr>"

definition legacyFiles :: directoryFiles where
  "legacyFiles = \<lparr> anselJson = Content \<lparr> photos = [(''a.jpg'', [(''tilt'', JNumber (Num 3))])] \<rparr>,
                   picasaIni = Some [''[a.jpg]'', ''star=yes'', ''[b.jpg]'', ''star=yes''],
                   editedPicasaData = None \<rparr>"

definition legacySnapshot :: DirectoryData where
  "legacySnapshot =
     \<lparr> anselData = \<lparr> photos = [(''a.jpg'', [(''tilt'', JNumber (Num 3))])] \<rparr>,
       picasaData = Some \<lparr> picasaPhotos = [(''a.jpg'', [''star=yes'']), (''b.jpg'', [''star=yes''])] \<rparr> \<rparr>"

definition storedState :: DirectoryWork where
  "storedState =
     \<lparr> directoryPath = ''/photos'',
       data = Some \<lparr> anselData = \<lparr> photos = [(''a.jpg'', [(''flagged'', JBool True),
                                                           (''tilt'', JNumber (Num 3))])] \<rparr>,
                     picasaData = None \<rparr>,
       lastFetchTime = 0, runningFetch = None,
       isStoreRunning = True, needsStoreFollowup = False \<rparr>"

definition removedState :: DirectoryWork where
  "removedState =
     \<lparr> directoryPath = ''/photos'',
       data = Some \<lparr> anselData = \<lparr> photos = [] \<rparr>, picasaData = None \<rparr>,
       lastFetchTime = 0, runningFetch = None,
       isStoreRunning = True, needsStoreFollowup = True \<rparr>"

definition picasaOnlyFiles :: directoryFiles where
  "picasaOnlyFiles = \<lparr> anselJson = Missing, picasaIni = Some [''[a.jpg]'', ''star=yes''],
                       editedPicasaData = None \<rparr>"

definition legacyRemovedState :: DirectoryWork where
  "legacyRemovedState =
     \<lparr> directoryPath = ''/photos'',
       data = Some \<lparr> anselData = \<lparr> photos = [] \<rparr>,
                     picasaData = Some \<lparr> picasaPhotos = [(''a.jpg'', [''star=yes''])] \<rparr> \<rparr>,
       lastFetchTime = 0, runningFetch = None,
       isStoreRunning = True, needsStoreFollowup = False \<rparr>"

text \<open>
  A registry of \<open>n\<close> directories, each with a store under way, of which the first
  \<open>k\<close> have finished their store cycle.
\<close>

definition dirName :: "nat \<Rightarrow> string" where
  "dirName i = CHR ''/'' # replicate (Suc i) CHR ''d''"

definition busyWork :: "string \<Rightarrow> DirectoryWork" where
  "busyWork path =
     \<lparr> directoryPath = path,
       data = Some \<lparr> anselData = \<lparr> photos = [(''a.jpg'', [(''flagged'', JBool True)])] \<rparr>,
                     picasaData = None \<rparr>,
       lastFetchTime = 0, runningFetch = None,
       isStoreRunning = True, needsStoreFollowup = False \<rparr>"

definition idleWork :: "string \<Rightarrow> DirectoryWork" where
  "idleWork path = (busyWork path)\<lparr> isStoreRunning := False \<rparr>"

definition crowdEntries :: "nat \<Rightarrow> nat \<Rightarrow> DirectoryWork obj" where
  "crowdEntries n k =
     map (\<lambda>i. (dirName i, idleWork (dirName i))) [0..<k]
     @ map (\<lambda>i. (dirName i, busyWork (dirName i))) [k..<n]"

definition crowd :: "nat \<Rightarrow> nat \<Rightarrow> registry" where
  "crowd n k = \<lparr> directoryWorkByPath = crowdEntries n k, directoryWorkCacheSize = int n \<rparr>"

text \<open>
  A store in each of the first \<open>n\<close> of these directories, and the timers of their
  store cycles firing one after the other.
\<close>

definition storeInAll :: "registry \<Rightarrow> nat \<Rightarrow> registry" where
  "storeInAll reg n =
     foldl (\<lambda>r i. snd (exportedStorePhotoWork r sampleFiles 0 (dirName i) ''a.jpg''
                          [(''flagged'', JBool True)]))
       reg [0..<n]"

definition finishAll :: "registry \<Rightarrow> nat \<Rightarrow> registry" where
  "finishAll reg n = foldl (\<lambda>r i. storeTimerFired r sampleFiles True (dirName i)) reg [0..<n]"

text \<open>
  A registry at its capacity: 97 idle instances, one with a fetch in flight, one
  with a store cycle running, and one whose store cycle failed while a follow-up was
  pending.
\<close>

definition fetchingWork :: DirectoryWork where
  "fetchingWork = (newDirectoryWork ''/fetching'')\<lparr> runningFetch := Some (Inl FetchFailed) \<rparr>"

definition pendingWork :: DirectoryWork where
  "pendingWork = (idleWork ''/pending'')\<lparr> needsStoreFollowup := True \<rparr>"

definition mixedRegistry :: registry where
  "mixedRegistry =
     \<lparr> directoryWorkByPath =
         crowdEntries 97 97
         @ [(''/fetching'', fetchingWork), (''/storing'', busyWork ''/storing''),
            (''/pending'', pendingWork)],
       directoryWorkCacheSize = 100 \<rparr>"

section \<open>Rectangles from two points\<close>

lemma getRectFromPoints_commute:
  "getRectFromPoints p1 p2 = getRectFromPoints p2 p1"
  by (simp add: getRectFromPoints_def min.commute abs_minus_commute)

text \<open>
  Claim C8. The rectangle built from two points does not depend on the order of the
  points, its width and height are never negative, and the points (5,5) and (1,1) give
  the rectangle at (1,1) of width 4 and height 4 in either order.
\<close>

theorem rectFromPoints_order_independent:
  "getRectFromPoints p1 p2 = getRectFromPoints p2 p1
   \<and> 0 \<le> width (getRectFromPoints p1 p2)
   \<and> 0 \<le> height (getRectFromPoints p1 p2)
   \<and> getRectFromPoints \<lparr>px = 5, py = 5\<rparr> \<lparr>px = 1, py = 1\<rparr>
        = \<lparr>rx = 1, ry = 1, width = 4, height = 4\<rparr>
   \<and> getRectFromPoints \<lparr>px = 1, py = 1\<rparr> \<lparr>px = 5, py = 5\<rparr>
        = \<lparr>rx = 1, ry = 1, width = 4, height = 4\<rparr>"
proof -
  have "0 \<le> width (getRectFromPoints p1 p2)" "0 \<le> height (getRectFromPoints p1 p2)"
    by (simp_all add: getRectFromPoints_def)
  moreover have "getRectFromPoints \<lparr>px = 5, py = 5\<rparr> \<lparr>px = 1, py = 1\<rparr>
        = \<lparr>rx = 1, ry = 1, width = 4, height = 4\<rparr>"
    by (simp add: getRectFromPoints_def)
  moreover have "getRectFromPoints \<lparr>px = 1, py = 1\<rparr> \<lparr>px = 5, py = 5\<rparr>
        = \<lparr>rx = 1, ry = 1, width = 4, height = 4\<rparr>"
    by (simp add: getRectFromPoints_def)
  ultimately show ?thesis
    using getRectFromPoints_commute [of p1 p2] by simp
qed

section \<open>Cutting a line with a polygon\<close>

lemma isChosen_single: "isChosen [x] x"
  by (simp add: isChosen_def)

lemma isChosen_snoc:
  assumes "isChosen C b"
  shows "\<exists>t. pickFactor (Some b) x = Some t \<and> isChosen (C @ [x]) t"
proof (cases "epsilon \<le> x")
  case True
  show ?thesis
  proof (cases "epsilon \<le> b")
    case eb: True
    with True assms show ?thesis
      by (cases "x < b") (auto simp: isChosen_def split: if_splits)
  next
    case eb: False
    with True assms have "\<forall>c \<in> set C. c < epsilon"
      by (auto simp: isChosen_def split: if_splits)
    with True eb assms show ?thesis
      by (auto simp: isChosen_def)
  qed
next
  case False
  show ?thesis
  proof (cases "epsilon \<le> b")
    case eb: True
    with False assms show ?thesis
      by (auto simp: isChosen_def split: if_splits)
  next
    case eb: False
    with False assms show ?thesis
      by (cases "x > b") (auto simp: isChosen_def split: if_splits)
  qed
qed

lemma foldl_pickFactor:
  "C \<noteq> [] \<Longrightarrow> \<exists>t. foldl pickFactor None C = Some t \<and> isChosen C t"
proof (induction C rule: rev_induct)
  case Nil
  then show ?case by simp
next
  case (snoc x xs)
  show ?case
  proof (cases "xs = []")
    case True
    then show ?thesis by (simp add: isChosen_single)
  next
    case False
    with snoc.IH obtain b where b: "foldl pickFactor None xs = Some b" "isChosen xs b"
      by blast
    from isChosen_snoc [OF b(2), of x] b(1) show ?thesis
      by simp
  qed
qed

lemma isChosen_chosenFactor:
  assumes "isChosen C t"
  shows "chosenFactor C = t"
proof (cases "\<exists>c \<in> set C. epsilon \<le> c")
  case True
  with assms have "t \<in> set (filter (\<lambda>t. epsilon \<le> t) C)"
    and "\<And>y. y \<in> set (filter (\<lambda>t. epsilon \<le> t) C) \<Longrightarrow> t \<le> y"
    by (auto simp: isChosen_def)
  then have "Min (set (filter (\<lambda>t. epsilon \<le> t) C)) = t"
    by (intro Min_eqI) auto
  with True show ?thesis
    by (simp add: chosenFactor_def nearestAhead_def)
next
  case False
  with assms have "t \<in> set C" and "\<And>y. y \<in> set C \<Longrightarrow> y \<le> t"
    by (auto simp: isChosen_def)
  then have "Max (set C) = t"
    by (intro Max_eqI) auto
  with False show ?thesis
    by (simp add: chosenFactor_def nearestBehind_def)
qed

lemma foldl_pickFactor_chosen:
  "foldl pickFactor None C = (if C = [] then None else Some (chosenFactor C))"
proof (cases "C = []")
  case True
  then show ?thesis by simp
next
  case False
  from foldl_pickFactor [OF False] obtain t
    where "foldl pickFactor None C = Some t" "isChosen C t" by blast
  with False isChosen_chosenFactor show ?thesis by simp
qed

lemma intersectVectorLines_shape:
  "intersectVectorLines a b c d = (NaN, NaN)
   \<or> (\<exists>s t. intersectVectorLines a b c d = (Num s, Num t))"
  by (simp add: intersectVectorLines_def intersectPlainLines_def Let_def)

lemma cutStep_crossingAt:
  assumes "i < length ps" and "j = (i + length ps - 1) mod length ps"
  shows "cutStep ls le ps (map_option Num r, j) i
         = (map_option Num (foldl pickFactor r (crossingAt ls le ps i)), i)"
proof -
  let ?R = "intersectVectorLines (ps ! i) (ps ! ((i + length ps - 1) mod length ps)) ls le"
  from intersectVectorLines_shape [of "ps ! i" "ps ! ((i + length ps - 1) mod length ps)" ls le]
  consider "?R = (NaN, NaN)" | s t where "?R = (Num s, Num t)" by blast
  then show ?thesis
  proof cases
    case 1
    with assms show ?thesis
      by (simp add: cutStep_def crossingAt_def Let_def)
  next
    case 2
    with assms show ?thesis
      by (cases r) (simp_all add: cutStep_def crossingAt_def Let_def)
  qed
qed

lemma prev_index:
  fixes m n :: nat
  assumes "m < n"
  shows "(if m = 0 then n - 1 else m - 1) = (m + n - 1) mod n"
proof (cases m)
  case 0
  with assms show ?thesis by simp
next
  case (Suc k)
  with assms have "(m + n - 1) mod n = (k + n) mod n" by simp
  also have "\<dots> = k" using assms Suc by simp
  finally show ?thesis using Suc by simp
qed

lemma cutLoop_prefix:
  "m \<le> length ps \<Longrightarrow>
   foldl (cutStep ls le ps) (None, length ps - 1) [0..<m]
   = (map_option Num (foldl pickFactor None (concat (map (crossingAt ls le ps) [0..<m]))),
      if m = 0 then length ps - 1 else m - 1)"
proof (induction m)
  case 0
  then show ?case by simp
next
  case (Suc m)
  then have m: "m < length ps" by simp
  have j: "(if m = 0 then length ps - 1 else m - 1) = (m + length ps - 1) mod length ps"
    using prev_index [OF m] .
  from Suc have IH: "foldl (cutStep ls le ps) (None, length ps - 1) [0..<m]
   = (map_option Num (foldl pickFactor None (concat (map (crossingAt ls le ps) [0..<m]))),
      if m = 0 then length ps - 1 else m - 1)" by simp
  show ?case
    by (simp only: upt_Suc_append [OF le0] foldl_append IH map_append concat_append
        cutStep_crossingAt [OF m j] list.map concat.simps append_Nil2 foldl.simps
        nat.simps if_False diff_Suc_1)
qed

lemma cutLoop_result:
  "fst (foldl (cutStep ls le ps) (None, length ps - 1) [0..<length ps])
   = map_option Num (foldl pickFactor None (edgeCrossings ls le ps))"
  using cutLoop_prefix [of "length ps" ps ls le] by (simp add: edgeCrossings_def)

text \<open>
  Claim C1, as the code has it. For every line and every vertex list,
  \<open>cutLineWithPolygon\<close> looks at exactly the edges whose own intersection factor
  lies in [0,1]. When there is none it returns no point. Otherwise it returns the point
  of the line at the smallest parameter that is at least \<open>epsilon\<close> when such a
  crossing exists, and else at the largest parameter of all crossings: the crossing
  nearest to \<open>lineStart\<close> behind it, not the one with the smallest parameter.
\<close>

theorem cutLineWithPolygon_nearest:
  "cutLineWithPolygon lineStart lineEnd ps =
     (if edgeCrossings lineStart lineEnd ps = [] then (None, NaN)
      else (Some (pointOnLine lineStart lineEnd (chosenFactor (edgeCrossings lineStart lineEnd ps))),
            Num (chosenFactor (edgeCrossings lineStart lineEnd ps))))"
proof -
  have "fst (foldl (cutStep lineStart lineEnd ps) (None, length ps - 1) [0..<length ps])
        = (if edgeCrossings lineStart lineEnd ps = [] then None
           else Some (Num (chosenFactor (edgeCrossings lineStart lineEnd ps))))"
    using cutLoop_result [of lineStart lineEnd ps] by (simp add: foldl_pickFactor_chosen)
  then show ?thesis
    by (simp add: cutLineWithPolygon_def pointOnLine_def Let_def del: One_nat_def)
qed

lemma unitSquare_ahead:
  "edgeCrossings (1/2, 1/2) (2, 1/2) [(0,0), (1,0), (1,1), (0,1)] = [- (1/3), 1/3]"
  by (simp add: edgeCrossings_def crossingAt_def intersectVectorLines_def
      intersectPlainLines_def upt_rec)

lemma unitSquare_behind:
  "edgeCrossings (2, 1/2) (3, 1/2) [(0,0), (1,0), (1,1), (0,1)] = [-2, -1]"
  by (simp add: edgeCrossings_def crossingAt_def intersectVectorLines_def
      intersectPlainLines_def upt_rec)

theorem cutLineWithPolygon_nearest_witness:
  "edgeCrossings (1/2, 1/2) (2, 1/2) [(0,0), (1,0), (1,1), (0,1)] = [- (1/3), 1/3]
   \<and> cutLineWithPolygon (1/2, 1/2) (2, 1/2) [(0,0), (1,0), (1,1), (0,1)]
       = (Some (Num 1, Num (1/2)), Num (1/3))
   \<and> edgeCrossings (2, 1/2) (3, 1/2) [(0,0), (1,0), (1,1), (0,1)] = [-2, -1]
   \<and> cutLineWithPolygon (2, 1/2) (3, 1/2) [(0,0), (1,0), (1,1), (0,1)]
       = (Some (Num 1, Num (1/2)), Num (-1))
   \<and> cutLineWithPolygon (0, 0) (1, 0) [] = (None, NaN)"
proof -
  have a: "chosenFactor [- (1/3), 1/3] = 1/3"
    by code_simp
  have b: "chosenFactor [-2, -1] = -1"
    by code_simp
  have e: "edgeCrossings (0, 0) (1, 0) [] = []"
    by (simp add: edgeCrossings_def)
  show ?thesis
    using cutLineWithPolygon_nearest [of "(1/2, 1/2)" "(2, 1/2)" "[(0,0), (1,0), (1,1), (0,1)]"]
      cutLineWithPolygon_nearest [of "(2, 1/2)" "(3, 1/2)" "[(0,0), (1,0), (1,1), (0,1)]"]
      cutLineWithPolygon_nearest [of "(0, 0)" "(1, 0)" "[]"]
    by (simp add: unitSquare_ahead unitSquare_behind a b e pointOnLine_def)
qed

text \<open>
  With the unit square and the line from (2, 1/2) to (3, 1/2), which starts outside,
  the crossings are at the parameters -2 and -1. The smallest parameter overall is -2,
  the point (0, 1/2); the function returns the point (1, 1/2) at -1.
\<close>

theorem cutLineWithPolygon_smallest_overall_counterexample:
  "\<not> (\<forall>lineStart lineEnd ps. edgeCrossings lineStart lineEnd ps \<noteq> [] \<longrightarrow>
        fst (cutLineWithPolygon lineStart lineEnd ps)
          = Some (pointOnLine lineStart lineEnd
                    (claimedFactor (edgeCrossings lineStart lineEnd ps))))"
proof
  assume "\<forall>lineStart lineEnd ps. edgeCrossings lineStart lineEnd ps \<noteq> [] \<longrightarrow>
        fst (cutLineWithPolygon lineStart lineEnd ps)
          = Some (pointOnLine lineStart lineEnd
                    (claimedFactor (edgeCrossings lineStart lineEnd ps)))"
  then have "fst (cutLineWithPolygon (2, 1/2) (3, 1/2) [(0,0), (1,0), (1,1), (0,1)])
      = Some (pointOnLine (2, 1/2) (3, 1/2) (claimedFactor [-2, -1]))"
    using unitSquare_behind by (metis list.distinct(1))
  moreover have "claimedFactor [-2, -1] = -2"
    by (simp add: claimedFactor_def epsilon_def)
  moreover have "cutLineWithPolygon (2, 1/2) (3, 1/2) [(0,0), (1,0), (1,1), (0,1)]
      = (Some (Num 1, Num (1/2)), Num (-1))"
    by (simp add: cutLineWithPolygon_def cutStep_def intersectVectorLines_def
        intersectPlainLines_def epsilon_def upt_rec Let_def)
  ultimately show False
    by (simp add: pointOnLine_def)
qed

section \<open>The sections of a legacy sidecar\<close>

lemma keys_obj_set: "set (Object_keys (obj_set obj k v)) = insert k (set (Object_keys obj))"
  by (induction obj k v rule: obj_set.induct) (auto simp: Object_keys_def)

lemma keys_obj_assign:
  "obj_assign picasaRulesIsObject obj k v = Some recorded \<Longrightarrow>
   set (Object_keys recorded) = insert k (set (Object_keys obj))"
  by (auto simp: obj_assign_def picasaRulesIsObject_def keys_obj_set split: if_splits)

lemma flush_keys:
  "flushCurrentSection e st = Inr flushed \<Longrightarrow>
   set (Object_keys (parsedPhotos flushed)) = set (Object_keys (parsedPhotos st)) \<union> openKey st"
  by (auto simp: flushCurrentSection_def openKey_def Let_def
      split: option.splits if_splits lookup.splits dest: keys_obj_assign)

lemma onLine_keys:
  "onLine e st line = Inr st' \<Longrightarrow>
   set (Object_keys (parsedPhotos st')) \<union> openKey st'
     = set (Object_keys (parsedPhotos st)) \<union> openKey st \<union> (set (headerNames [line]) - {[]})"
  by (auto simp: onLine_def headerNames_def openKey_def split: option.splits sum.splits
      dest!: flush_keys)

lemma headerNames_Cons: "headerNames (x # xs) = headerNames [x] @ headerNames xs"
  by (simp add: headerNames_def)

lemma readLines_keys:
  "readLines e st lines = Inr st' \<Longrightarrow>
   set (Object_keys (parsedPhotos st')) \<union> openKey st'
     = set (Object_keys (parsedPhotos st)) \<union> openKey st \<union> (set (headerNames lines) - {[]})"
proof (induction lines arbitrary: st)
  case Nil
  then show ?case by (simp add: headerNames_def)
next
  case (Cons line lines)
  from Cons.prems obtain mid where line: "onLine e st line = Inr mid"
    and rest: "readLines e mid lines = Inr st'"
    by (auto split: sum.splits)
  from Cons.IH [OF rest] onLine_keys [OF line] show ?case
    unfolding headerNames_Cons [of line lines] set_append by blast
qed

text \<open>
  The keys of a mapping the parser gives are exactly the non-empty header names of the
  file: a section opened by \<open>[]\<close> is never a key, and lines before the first header
  open no section.
\<close>

lemma parseSections_keys:
  "parseSections e lines = Inr parsed \<Longrightarrow>
   set (Object_keys (picasaPhotos parsed)) = set (headerNames lines) - {[]}"
proof -
  assume "parseSections e lines = Inr parsed"
  then obtain st flushed
    where r: "readLines e \<lparr> parsedPhotos = [], currentSectionKey = None,
                             currentSectionRules = [] \<rparr> lines = Inr st"
      and f: "flushCurrentSection e st = Inr flushed"
      and p: "parsed = \<lparr> picasaPhotos = parsedPhotos flushed \<rparr>"
    by (auto simp: parseSections_def split: sum.splits)
  from readLines_keys [OF r] flush_keys [OF f] p show ?thesis
    by (simp add: openKey_def Object_keys_def)
qed

text \<open>
  Without edited data the parser gives a mapping unless a section \<open>[__proto__]\<close>
  makes the assignment replace the prototype of the mapping.
\<close>

lemma flush_plain:
  "currentSectionKey st \<noteq> Some ''__proto__'' \<Longrightarrow>
   \<exists>flushed. flushCurrentSection None st = Inr flushed"
  by (auto simp: flushCurrentSection_def obj_assign_def Let_def split: option.splits)

lemma readLines_plain:
  "currentSectionKey st \<noteq> Some ''__proto__'' \<Longrightarrow> ''__proto__'' \<notin> set (headerNames lines) \<Longrightarrow>
   \<exists>st'. readLines None st lines = Inr st' \<and> currentSectionKey st' \<noteq> Some ''__proto__''"
proof (induction lines arbitrary: st)
  case Nil
  then show ?case by simp
next
  case (Cons line lines)
  from Cons.prems(2) have here: "''__proto__'' \<notin> set (headerNames [line])"
    and later: "''__proto__'' \<notin> set (headerNames lines)"
    unfolding headerNames_Cons [of line lines] by simp_all
  from flush_plain [OF Cons.prems(1)] obtain flushed
    where f: "flushCurrentSection None st = Inr flushed" by blast
  have "\<exists>mid. onLine None st line = Inr mid \<and> currentSectionKey mid \<noteq> Some ''__proto__''"
    using here Cons.prems(1) f
    by (cases "matchSectionStart line") (auto simp: onLine_def headerNames_def)
  then obtain mid where line: "onLine None st line = Inr mid"
    and key: "currentSectionKey mid \<noteq> Some ''__proto__''" by blast
  from Cons.IH [OF key later] line show ?case by simp
qed

lemma parseSections_plain:
  "''__proto__'' \<notin> set (headerNames lines) \<Longrightarrow> \<exists>parsed. parseSections None lines = Inr parsed"
proof -
  assume "''__proto__'' \<notin> set (headerNames lines)"
  from readLines_plain [OF _ this,
      of "\<lparr> parsedPhotos = [], currentSectionKey = None, currentSectionRules = [] \<rparr>"]
  obtain st where r: "readLines None \<lparr> parsedPhotos = [], currentSectionKey = None,
                             currentSectionRules = [] \<rparr> lines = Inr st"
    and key: "currentSectionKey st \<noteq> Some ''__proto__''"
    by auto
  from flush_plain [OF key] r show ?thesis
    by (auto simp: parseSections_def)
qed

text \<open>
  Claim C10 says that the body lines before the first header, and the body of a
  section opened by \<open>[]\<close>, belong to no section of the result. The flush resets the
  collected rules only when it records a section, so those lines stay in the buffer
  and are recorded at the front of the next section with a non-empty name: here the
  line \<open>width=10\<close>, which precedes every header, and the line \<open>crop=rect64(1)\<close>
  of the section \<open>[]\<close> both end up among the rules of \<open>a.jpg\<close>.
\<close>

theorem parseSections_keeps_orphan_lines:
  "parseSections None [''width=10'', ''[a.jpg]'', ''star=yes'']
     = Inr \<lparr> picasaPhotos = [(''a.jpg'', [''width=10'', ''star=yes''])] \<rparr>
   \<and> parseSections None [''[]'', ''crop=rect64(1)'', ''[a.jpg]'', ''star=yes'']
     = Inr \<lparr> picasaPhotos = [(''a.jpg'', [''crop=rect64(1)'', ''star=yes''])] \<rparr>"
  by (simp add: parseSections_def onLine_def flushCurrentSection_def matchSectionStart_def
      anyChars_def isLineTerminator_def obj_assign_def)

section \<open>Decoding a packed crop value\<close>

lemma hexValue_hexDigits: "list_all (\<lambda>d. hexValue (hexDigit d) = d) [0..<16]"
  by (simp add: upt_rec hexValue_def hexDigit_def isDigit_def)

lemma hexValue_hexDigit: "d < 16 \<Longrightarrow> hexValue (hexDigit d) = d"
  using hexValue_hexDigits by (simp add: list_all_iff)

lemma nat_base16:
  fixes n :: nat
  assumes "n < 65536"
  shows "16 * (16 * (16 * (n div 4096 mod 16) + n div 256 mod 16) + n div 16 mod 16) + n mod 16 = n"
proof -
  have q3: "n div 4096 mod 16 = n div 4096"
    using assms by (simp add: less_mult_imp_div_less)
  have d2: "n div 256 div 16 = n div 4096" and d1: "n div 16 div 16 = n div 256"
    by (simp_all add: div_mult2_eq [symmetric])
  have e3: "16 * (n div 4096) + n div 256 mod 16 = n div 256"
    using mult_div_mod_eq [of 16 "n div 256"] by (simp add: d2)
  have e2: "16 * (n div 256) + n div 16 mod 16 = n div 16"
    using mult_div_mod_eq [of 16 "n div 16"] by (simp add: d1)
  have e1: "16 * (n div 16) + n mod 16 = n"
    by simp
  show ?thesis
    by (simp only: q3 e3 e2 e1)
qed

lemma parseIntHex_hex4:
  assumes "n < 65536"
  shows "parseIntHex (hex4 n) = n"
proof -
  have d: "n div 4096 mod 16 < 16" "n div 256 mod 16 < 16" "n div 16 mod 16 < 16" "n mod 16 < 16"
    by simp_all
  have "parseIntHex (hex4 n)
        = 16 * (16 * (16 * (n div 4096 mod 16) + n div 256 mod 16) + n div 16 mod 16) + n mod 16"
    unfolding parseIntHex_def hex4_def foldl.simps
    by (simp only: hexValue_hexDigit [OF d(1)] hexValue_hexDigit [OF d(2)]
        hexValue_hexDigit [OF d(3)] hexValue_hexDigit [OF d(4)] mult_0_right add_0_left)
  also have "\<dots> = n" using assms by (rule nat_base16)
  finally show ?thesis .
qed

lemma padTo16_full: "length s = 16 \<Longrightarrow> padTo16 s = s"
  by (subst padTo16.simps) simp

lemma padTo16_replicate: "padTo16 s = replicate (16 - length s) CHR ''0'' @ s"
proof (induction s rule: padTo16.induct)
  case (1 s)
  show ?case
  proof (cases "length s < 16")
    case True
    then have "padTo16 s = padTo16 (CHR ''0'' # s)" by (subst padTo16.simps) simp
    also have "\<dots> = replicate (16 - length (CHR ''0'' # s)) CHR ''0'' @ CHR ''0'' # s"
      using 1 True by simp
    also have "\<dots> = replicate (16 - length s) CHR ''0'' @ s"
    proof -
      from True have "16 - length s = Suc (16 - length (CHR ''0'' # s))" by simp
      then show ?thesis by (simp add: replicate_app_Cons_same)
    qed
    finally show ?thesis .
  next
    case False
    then show ?thesis by (subst padTo16.simps) simp
  qed
qed

lemma substring_quad:
  "substring (hex4 l @ hex4 t @ hex4 r @ hex4 b) 0 4 = hex4 l"
  "substring (hex4 l @ hex4 t @ hex4 r @ hex4 b) 4 8 = hex4 t"
  "substring (hex4 l @ hex4 t @ hex4 r @ hex4 b) 8 12 = hex4 r"
  "substring (hex4 l @ hex4 t @ hex4 r @ hex4 b) 12 16 = hex4 b"
  by (simp_all add: substring_def hex4_def)

lemma decodeCropRect_half:
  "decodeCropRect ''0000000080008000'' 1000 1000
     = \<lparr> rx = 0, ry = 0, width = 32768000 / 65535, height = 32768000 / 65535 \<rparr>"
  by (simp add: decodeCropRect_def padTo16_full substring_def parseIntHex_def hexValue_def
      isDigit_def rectFromPoints_def)

text \<open>
  Claim C4, as the code has it. A packed value of 16 hexadecimal digits is read as the
  quad (left, top, right, bottom); each group of four digits is divided by 0xFFFF and
  scaled by the master width (left, right) or the master height (top, bottom), and the
  rectangle is the one spanned by the two corner points. Since 0x8000 / 0xFFFF is a
  little more than one half, the packed value 0000000080008000 over a master of 1000 by
  1000 gives a rectangle at (0, 0) of width and height 32768000 / 65535 (about
  500.0076), not 500.
\<close>

theorem decodeCropRect_quad:
  assumes "l < 65536" and "t < 65536" and "r < 65536" and "b < 65536"
  shows "decodeCropRect (hex4 l @ hex4 t @ hex4 r @ hex4 b) masterWidth masterHeight
           = rectFromPoints (real l / 65535 * masterWidth, real t / 65535 * masterHeight)
                            (real r / 65535 * masterWidth, real b / 65535 * masterHeight)
         \<and> decodeCropRect ''0000000080008000'' 1000 1000
           = \<lparr> rx = 0, ry = 0, width = 32768000 / 65535, height = 32768000 / 65535 \<rparr>"
proof -
  have len: "length (hex4 l @ hex4 t @ hex4 r @ hex4 b) = 16"
    by (simp add: hex4_def)
  have "decodeCropRect (hex4 l @ hex4 t @ hex4 r @ hex4 b) masterWidth masterHeight
           = rectFromPoints (real l / 65535 * masterWidth, real t / 65535 * masterHeight)
                            (real r / 65535 * masterWidth, real b / 65535 * masterHeight)"
    unfolding decodeCropRect_def Let_def padTo16_full [OF len] substring_quad
    using assms by (simp add: parseIntHex_hex4)
  with decodeCropRect_half show ?thesis
    by (rule_tac conjI)
qed

theorem decodeCropRect_quad_witness:
  "hex4 0 @ hex4 0 @ hex4 32768 @ hex4 32768 = ''0000000080008000''
   \<and> decodeCropRect ''0000000080008000'' 1000 1000
       = rectFromPoints (0, 0) (32768 / 65535 * 1000, 32768 / 65535 * 1000)"
proof -
  have enc: "hex4 0 @ hex4 0 @ hex4 32768 @ hex4 32768 = ''0000000080008000''"
    by (simp add: hex4_def hexDigit_def)
  from decodeCropRect_quad [of 0 0 32768 32768 1000 1000]
  have "decodeCropRect (hex4 0 @ hex4 0 @ hex4 32768 @ hex4 32768) 1000 1000
       = rectFromPoints (0, 0) (32768 / 65535 * 1000, 32768 / 65535 * 1000)"
    by simp
  with enc show ?thesis by simp
qed

text \<open>The rectangle of exactly 500 by 500 is not what the decoding gives.\<close>

theorem decodeCropRect_exact_half_counterexample:
  "decodeCropRect ''0000000080008000'' 1000 1000
     \<noteq> \<lparr> rx = 0, ry = 0, width = 500, height = 500 \<rparr>"
  by (simp add: decodeCropRect_half)

section \<open>More than one packed crop value\<close>

lemma stripPrefix_first: "stripPrefix (p # ps) s = Some r \<Longrightarrow> \<exists>cs. s = p # cs"
  by (cases s) (auto split: if_splits)

lemma matchRotateRule_first: "matchRotateRule rule = Some d \<Longrightarrow> \<exists>cs. rule = CHR ''r'' # cs"
  by (auto simp: matchRotateRule_def split: option.splits dest: stripPrefix_first)

lemma matchFiltersRule_first: "matchFiltersRule rule = Some d \<Longrightarrow> \<exists>cs. rule = CHR ''f'' # cs"
  by (auto simp: matchFiltersRule_def split: option.splits dest: stripPrefix_first)

lemma matchCropRule_first: "matchCropRule rule = Some d \<Longrightarrow> \<exists>cs. rule = CHR ''c'' # cs"
  by (auto simp: matchCropRule_def split: option.splits dest: stripPrefix_first)

lemma matchTiltFilter_first: "matchTiltFilter flt = Some d \<Longrightarrow> \<exists>cs. flt = CHR ''t'' # cs"
  by (auto simp: matchTiltFilter_def split: option.splits dest: stripPrefix_first)

lemma matchCropFilter_first: "matchCropFilter flt = Some d \<Longrightarrow> \<exists>cs. flt = CHR ''c'' # cs"
  by (auto simp: matchCropFilter_def split: option.splits dest: stripPrefix_first)

lemma matchCropFilter_nonempty: "matchCropFilter flt = Some v \<Longrightarrow> v \<noteq> []"
  by (auto simp: matchCropFilter_def split: option.splits if_splits)

lemma matchCropRule_nonempty: "matchCropRule rule = Some v \<Longrightarrow> v \<noteq> []"
  by (auto simp: matchCropRule_def split: option.splits if_splits)

lemma cropValuesOfFilter_tilt: "matchTiltFilter flt = Some g \<Longrightarrow> cropValuesOfFilter flt = []"
  by (auto simp: cropValuesOfFilter_def matchCropFilter_def dest!: matchTiltFilter_first)

lemma cropValuesOfRule_rotate: "matchRotateRule rule = Some d \<Longrightarrow> cropValuesOfRule rule = []"
  by (auto simp: cropValuesOfRule_def matchFiltersRule_def matchCropRule_def
      dest!: matchRotateRule_first)

lemma cropValuesOfRule_star: "cropValuesOfRule ''star=yes'' = []"
  by (simp add: cropValuesOfRule_def matchFiltersRule_def matchCropRule_def)

lemma cropValuesOfRule_crop:
  assumes "matchCropRule rule = Some v"
  shows "cropValuesOfRule rule = [v]"
proof -
  from matchCropRule_first [OF assms] obtain cs where "rule = CHR ''c'' # cs" ..
  then have "matchFiltersRule rule = None"
    by (simp add: matchFiltersRule_def)
  with assms show ?thesis
    by (simp add: cropValuesOfRule_def)
qed

lemma duplicateCropProblems_append:
  "duplicateCropProblems (xs @ ys) = duplicateCropProblems xs @ duplicateCropProblems ys"
  by (simp add: duplicateCropProblems_def)

lemma cropInv_photoWork: "cropInv (st\<lparr> photoWork := pw \<rparr>) vs = cropInv st vs"
  by (simp add: cropInv_def)

lemma seeCropRect_inv:
  assumes "cropInv st vs" and "v \<noteq> []"
  shows "cropInv (seeCropRect st v) (vs @ [v])"
proof (cases vs)
  case Nil
  with assms show ?thesis
    by (simp add: cropInv_def seeCropRect_def firstSeen_def expectedDuplicates_def)
next
  case (Cons w ws)
  with assms have w: "picasaCropRect st = Some w" "w \<noteq> []"
    by (simp_all add: cropInv_def firstSeen_def)
  show ?thesis
  proof (cases "w = v")
    case True
    with assms Cons w show ?thesis
      by (simp add: cropInv_def seeCropRect_def firstSeen_def expectedDuplicates_def)
  next
    case False
    with assms Cons w show ?thesis
      by (simp add: cropInv_def seeCropRect_def firstSeen_def expectedDuplicates_def
          duplicateCropProblems_append)
         (simp add: duplicateCropProblems_def)
  qed
qed

lemma applyFilter_inv:
  assumes "cropInv st vs"
  shows "cropInv (applyFilter st flt) (vs @ cropValuesOfFilter flt)"
proof (cases "matchTiltFilter flt")
  case (Some g)
  with assms show ?thesis
    by (simp add: applyFilter_def cropValuesOfFilter_tilt cropInv_photoWork Let_def)
next
  case None
  show ?thesis
  proof (cases "matchCropFilter flt")
    case (Some m)
    with None seeCropRect_inv [OF assms matchCropFilter_nonempty [OF Some]] show ?thesis
      by (simp add: applyFilter_def cropValuesOfFilter_def)
  next
    case nc: None
    with None assms show ?thesis
      by (simp add: applyFilter_def cropValuesOfFilter_def cropInv_def
          duplicateCropProblems_append)
         (simp add: duplicateCropProblems_def)
  qed
qed

lemma foldl_applyFilter_inv:
  "cropInv st vs \<Longrightarrow>
   cropInv (foldl applyFilter st fs) (vs @ concat (map cropValuesOfFilter fs))"
proof (induction fs arbitrary: st vs)
  case Nil
  then show ?case by simp
next
  case (Cons f fs)
  from Cons.IH [OF applyFilter_inv [OF Cons.prems, of f]] show ?case
    by simp
qed

lemma applyRule_inv:
  assumes "cropInv st vs"
  shows "cropInv (applyRule ext st rule) (vs @ cropValuesOfRule rule)"
proof (cases "matchRotateRule rule")
  case (Some d)
  with assms show ?thesis
    by (simp add: applyRule_def cropValuesOfRule_rotate cropInv_photoWork)
next
  case None
  show ?thesis
  proof (cases "rule = ''star=yes''")
    case True
    with None assms show ?thesis
      by (simp add: applyRule_def cropValuesOfRule_star cropInv_photoWork)
  next
    case False
    show ?thesis
    proof (cases "matchFiltersRule rule")
      case (Some filters)
      with None False foldl_applyFilter_inv [OF assms, of "splitOn CHR '';'' filters"]
      show ?thesis
        by (simp add: applyRule_def cropValuesOfRule_def)
    next
      case nf: None
      show ?thesis
      proof (cases "matchCropRule rule")
        case (Some m)
        with None False nf seeCropRect_inv [OF assms matchCropRule_nonempty [OF Some]]
        show ?thesis
          by (simp add: applyRule_def cropValuesOfRule_def)
      next
        case nc: None
        with None False nf assms show ?thesis
          by (simp add: applyRule_def cropValuesOfRule_def cropInv_def
              duplicateCropProblems_append)
         (simp add: duplicateCropProblems_def)
      qed
    qed
  qed
qed

lemma foldl_applyRule_inv:
  "cropInv st vs \<Longrightarrow>
   cropInv (foldl (applyRule ext) st rules) (vs @ cropValues rules)"
proof (induction rules arbitrary: st vs)
  case Nil
  then show ?case by (simp add: cropValues_def)
next
  case (Cons r rs)
  from Cons.IH [OF applyRule_inv [OF Cons.prems, of ext r]] show ?case
    by (simp add: cropValues_def)
qed

lemma scanRules_inv: "cropInv (scanRules ext rules) (cropValues rules)"
  using foldl_applyRule_inv
    [of "\<lparr> photoWork = [], picasaCropRect = None, importProblems = [] \<rparr>" "[]" ext rules]
  by (simp add: scanRules_def cropInv_def firstSeen_def expectedDuplicates_def
      duplicateCropProblems_def)

lemma scanRules_first: "hasCropRect (scanRules ext rules) = (cropValues rules \<noteq> [])"
  using scanRules_inv [of ext rules]
  by (cases "cropValues rules") (auto simp: cropInv_def firstSeen_def hasCropRect_def)




section \<open>Storing and fetching edit records\<close>

lemma obj_get_Own: "obj_get obj k = Own v \<longleftrightarrow> map_of obj k = Some v"
  by (simp add: obj_get_def split: option.splits)

lemma obj_get_absent:
  "map_of obj k = None \<Longrightarrow>
   obj_get obj k = (if k \<in> set objectPrototypeMembers then Inherited else Undefined)"
  by (simp add: obj_get_def)

lemma map_of_obj_set: "map_of (obj_set obj k v) = (map_of obj)(k \<mapsto> v)"
  by (induction obj k v rule: obj_set.induct) auto

lemma obj_get_obj_set: "obj_get (obj_set obj k v) k = Own v"
  by (simp add: obj_get_Own map_of_obj_set)

lemma map_of_obj_delete: "map_of (obj_delete obj k) = (map_of obj)(k := None)"
  by (induction obj) (auto simp: obj_delete_def)

text \<open>
  The canonical copy has the keys and values of the object, but for an own key
  \<open>__proto__\<close>, which the copy does not record.
\<close>

lemma map_of_copyKeys:
  "copyKeys isObject obj acc keys = Some copied \<Longrightarrow> map_of acc ''__proto__'' = None \<Longrightarrow>
   map_of copied k
     = (if k \<in> set keys \<and> map_of obj k \<noteq> None \<and> k \<noteq> ''__proto__'' then map_of obj k
        else map_of acc k)"
proof (induction keys arbitrary: acc)
  case Nil
  then show ?case by simp
next
  case (Cons key keys)
  show ?case
  proof (cases "map_of obj key")
    case None
    with Cons.prems have "copyKeys isObject obj acc keys = Some copied"
      by (simp add: obj_get_def split: if_splits)
    from Cons.IH [OF this Cons.prems(2)] None show ?thesis
      by auto
  next
    case (Some v)
    then have own: "obj_get obj key = Own v"
      by (simp add: obj_get_Own)
    show ?thesis
    proof (cases "key = ''__proto__''")
      case True
      with Cons.prems own have "copyKeys isObject obj acc keys = Some copied"
        by (simp add: obj_assign_def split: if_splits)
      from Cons.IH [OF this Cons.prems(2)] True show ?thesis
        by auto
    next
      case False
      with Cons.prems own have rest: "copyKeys isObject obj (obj_set acc key v) keys = Some copied"
        by (simp add: obj_assign_def)
      have "map_of (obj_set acc key v) ''__proto__'' = None"
        using False Cons.prems(2) by (simp add: map_of_obj_set)
      from Cons.IH [OF rest this] Some False show ?thesis
        by (auto simp: map_of_obj_set)
    qed
  qed
qed

lemma map_of_toCanonical:
  assumes "toCanonical isObject obj = Some copied"
  shows "map_of copied = (map_of obj)(''__proto__'' := None)"
proof
  fix k
  from assms have c: "copyKeys isObject obj [] (sort (Object_keys obj)) = Some copied"
    by (simp add: toCanonical_def)
  show "map_of copied k = ((map_of obj)(''__proto__'' := None)) k"
  proof (cases "map_of obj k")
    case None
    then show ?thesis
      using map_of_copyKeys [OF c, of k] by simp
  next
    case (Some v)
    then have "k \<in> fst ` set obj"
      by (metis map_of_eq_None_iff option.distinct(1))
    with Some show ?thesis
      using map_of_copyKeys [OF c, of k] by (simp add: Object_keys_def)
  qed
qed

text \<open>A record without the key \<open>__proto__\<close> has a canonical copy.\<close>

lemma copyKeys_plain:
  "''__proto__'' \<notin> set keys \<Longrightarrow> \<exists>copied. copyKeys isObject obj acc keys = Some copied"
  by (induction keys arbitrary: acc) (auto simp: obj_assign_def split: lookup.splits)

lemma toCanonical_plain:
  "''__proto__'' \<notin> set (Object_keys obj) \<Longrightarrow> \<exists>copied. toCanonical isObject obj = Some copied"
  by (simp add: toCanonical_def copyKeys_plain)

lemma store_twice:
  "snd (storePhotoWork
          (snd (storePhotoWork (newDirectoryWork ''/photos'') sampleFiles 0 ''b.jpg''
                  [(''flagged'', JBool True)]))
          sampleFiles 5 ''a.jpg'' [(''flagged'', JBool True)])
   = \<lparr> directoryPath = ''/photos'',
       data = Some \<lparr> anselData = \<lparr> photos = [(''b.jpg'', [(''flagged'', JBool True)]),
                                               (''a.jpg'', [(''flagged'', JBool True)])] \<rparr>,
                     picasaData = None \<rparr>,
       lastFetchTime = 0, runningFetch = None,
       isStoreRunning = True, needsStoreFollowup = True \<rparr>"
  by (simp add: storePhotoWork_def fetchData_def settleFetch_def readDirectory_def
      fetchAnselJson_def fetchPicasaIni_def sampleFiles_def newDirectoryWork_def
      onDataChanged_def toCanonical_def obj_assign_def Object_keys_def obj_get_def Let_def)

text \<open>Sorted, the two keys would come the other way round.\<close>

lemma toCanonical_sorts_sample:
  "map_option Object_keys
     (toCanonical photoWorkIsObject [(''b.jpg'', [(''flagged'', JBool True)]),
                                     (''a.jpg'', [(''flagged'', JBool True)])])
     = Some [''a.jpg'', ''b.jpg'']"
  by code_simp

text \<open>
  Claim C2 says that after storing for \<open>b.jpg\<close> and then for \<open>a.jpg\<close> the own
  mapping, and so the sidecar, lists \<open>a.jpg\<close> first, because the mapping is sorted
  again when the key is new. \<open>storePhotoWork\<close> reads \<open>isNew\<close> after it has
  assigned the record, so \<open>isNew\<close> is never true (\<open>obj_get_obj_set\<close>) and the
  mapping is never sorted: in a fresh directory the own mapping lists \<open>b.jpg\<close>
  before \<open>a.jpg\<close>, and the store cycle writes it in that order.
\<close>

theorem storePhotoWork_keeps_insertion_order:
  "ownMapping (snd (storePhotoWork
          (snd (storePhotoWork (newDirectoryWork ''/photos'') sampleFiles 0 ''b.jpg''
                  [(''flagged'', JBool True)]))
          sampleFiles 5 ''a.jpg'' [(''flagged'', JBool True)]))
     = [(''b.jpg'', [(''flagged'', JBool True)]), (''a.jpg'', [(''flagged'', JBool True)])]
   \<and> anselJson (snd (storeCycle (snd (storePhotoWork
          (snd (storePhotoWork (newDirectoryWork ''/photos'') sampleFiles 0 ''b.jpg''
                  [(''flagged'', JBool True)]))
          sampleFiles 5 ''a.jpg'' [(''flagged'', JBool True)])) sampleFiles True))
     = Content \<lparr> photos = [(''b.jpg'', [(''flagged'', JBool True)]),
                            (''a.jpg'', [(''flagged'', JBool True)])] \<rparr>"
  unfolding store_twice
  by (simp add: ownMapping_def storeCycle_def storeCycleWrite_def Object_keys_def
      sampleFiles_def)

lemma fetchData_snapshot:
  "fetchData dw files now = (Inr d, dw1) \<Longrightarrow> data dw1 = Some d"
  by (auto simp: fetchData_def settleFetch_def Let_def split: option.splits sum.splits if_splits)

lemma fetchData_cached:
  "data dw = Some d \<Longrightarrow> isStoreRunning dw \<or> needsStoreFollowup dw \<Longrightarrow>
   fetchData dw files now = (Inr d, dw)"
  by (auto simp: fetchData_def Let_def)

lemma onDataChanged_busy:
  "isStoreRunning (onDataChanged dw) \<or> needsStoreFollowup (onDataChanged dw)"
  by (simp add: onDataChanged_def)

lemma onDataChanged_data: "data (onDataChanged dw) = data dw"
  by (simp add: onDataChanged_def)

lemma onDataChanged_path: "directoryPath (onDataChanged dw) = directoryPath dw"
  by (simp add: onDataChanged_def)

text \<open>
  What a store that succeeds leaves: the snapshot of \<open>fetchData\<close> with the entry
  deleted, or with the canonical copy of the record as the own property of that
  name; \<open>isNew\<close> is false, so the mapping is not sorted.
\<close>

lemma storePhotoWork_result:
  assumes "storePhotoWork dw files now name work = (Inr u, dw')"
  shows "\<exists>d dw1 changed. fetchData dw files now = (Inr d, dw1)
           \<and> (isStoreRunning dw' \<or> needsStoreFollowup dw')
           \<and> data dw' = Some (d\<lparr> anselData := (anselData d)\<lparr> photos := changed \<rparr> \<rparr>)
           \<and> (work = [] \<longrightarrow> changed = obj_delete (photos (anselData d)) name)
           \<and> (work \<noteq> [] \<longrightarrow>
                (\<exists>canonical. toCanonical jsvalueIsObject work = Some canonical
                   \<and> changed = obj_set (photos (anselData d)) name canonical))"
proof (cases "fetchData dw files now")
  case (Pair r dw1)
  show ?thesis
  proof (cases r)
    case (Inl e)
    with Pair assms show ?thesis
      by (simp add: storePhotoWork_def)
  next
    case (Inr d)
    show ?thesis
    proof (cases "work = []")
      case True
      with Pair Inr assms
      have "dw' = onDataChanged (dw1\<lparr> data := Some (d\<lparr> anselData := (anselData d)\<lparr> photos :=
                     obj_delete (photos (anselData d)) name \<rparr> \<rparr>) \<rparr>)"
        by (simp add: storePhotoWork_def Let_def Object_keys_def)
      with Pair Inr True show ?thesis
        by (simp add: onDataChanged_busy onDataChanged_data)
    next
      case False
      with Pair Inr assms obtain canonical assigned
        where canonical: "toCanonical jsvalueIsObject work = Some canonical"
          and assigned: "obj_assign photoWorkIsObject (photos (anselData d)) name canonical
                           = Some assigned"
        by (auto simp: storePhotoWork_def Let_def Object_keys_def split: option.splits)
      from assigned have set: "assigned = obj_set (photos (anselData d)) name canonical"
        by (simp add: obj_assign_def photoWorkIsObject_def split: if_splits)
      from Pair Inr assms False canonical assigned
      have "dw' = onDataChanged (dw1\<lparr> data := Some (d\<lparr> anselData := (anselData d)\<lparr> photos :=
                     assigned \<rparr> \<rparr>) \<rparr>)"
        by (simp add: storePhotoWork_def Let_def Object_keys_def set obj_get_obj_set)
      with Pair Inr False canonical set show ?thesis
        by (simp add: onDataChanged_busy onDataChanged_data)
    qed
  qed
qed

text \<open>
  A store succeeds when the snapshot can be had and neither the basename nor a key
  of the record is \<open>__proto__\<close>.
\<close>

lemma storePhotoWork_succeeds:
  assumes "fetchData dw files now = (Inr d, dw1)"
    and "name \<noteq> ''__proto__''" and "''__proto__'' \<notin> set (Object_keys work)"
  shows "\<exists>dw'. storePhotoWork dw files now name work = (Inr (), dw')"
proof -
  from toCanonical_plain [OF assms(3)] obtain canonical
    where "toCanonical jsvalueIsObject work = Some canonical" by blast
  with assms(1,2) show ?thesis
    by (simp add: storePhotoWork_def Let_def obj_assign_def obj_get_obj_set)
qed

text \<open>
  What \<open>fetchPhotoWork\<close> returns from a snapshot: the own record; else, for the
  name of a member of \<open>Object.prototype\<close>, that member; else the translation of
  the legacy rules of that name; else the empty record.
\<close>

lemma fetchPhotoWork_cases:
  assumes "fetchData dw files now = (Inr d, dw1)"
  shows "fetchPhotoWork ext dw files now name mw mh
         = (case ownRecord d name of
              Some pw \<Rightarrow> Inr (Work pw)
            | None \<Rightarrow>
                if name \<in> set objectPrototypeMembers then Inr (PrototypeMember name)
                else
                  (case legacyRules d name of
                     Some rules \<Rightarrow>
                       Inr (Work (createPhotoWorkFromPicasaRules ext rules (directoryPath dw)
                                    name mw mh))
                   | None \<Rightarrow> Inr (Work [])),
            dw1)"
  using assms
  by (simp add: fetchPhotoWork_def ownRecord_def legacyRules_def obj_get_def
      split: option.splits)

lemma fetchPhotoWork_rejected:
  "fetchData dw files now = (Inl e, dw1) \<Longrightarrow>
   fetchPhotoWork ext dw files now name mw mh = (Inl e, dw1)"
  by (simp add: fetchPhotoWork_def)

lemma star_rule:
  "createPhotoWorkFromPicasaRules ext [''star=yes''] dir name mw mh = [(''flagged'', JBool True)]"
  by (simp add: createPhotoWorkFromPicasaRules_def importPicasaRules_def scanRules_def
      applyRule_def matchRotateRule_def hasCropRect_def hasTilt_def obj_get_def
      objectPrototypeMembers_def)

lemma legacyFiles_fetch:
  "fetchData (newDirectoryWork ''/photos'') legacyFiles 0
     = (Inr legacySnapshot, (newDirectoryWork ''/photos'')\<lparr> data := Some legacySnapshot \<rparr>)"
  by (simp add: fetchData_def settleFetch_def readDirectory_def fetchAnselJson_def
      fetchPicasaIni_def legacyFiles_def legacySnapshot_def newDirectoryWork_def
      parseSections_def onLine_def flushCurrentSection_def matchSectionStart_def
      anyChars_def isLineTerminator_def obj_assign_def)

lemma legacyFiles_sources:
  "fetchPhotoWork ext (newDirectoryWork ''/photos'') legacyFiles 0 ''a.jpg'' 1000 1000
     = (Inr (Work [(''tilt'', JNumber (Num 3))]),
        (newDirectoryWork ''/photos'')\<lparr> data := Some legacySnapshot \<rparr>)
   \<and> fetchPhotoWork ext (newDirectoryWork ''/photos'') legacyFiles 0 ''b.jpg'' 1000 1000
     = (Inr (Work [(''flagged'', JBool True)]),
        (newDirectoryWork ''/photos'')\<lparr> data := Some legacySnapshot \<rparr>)
   \<and> fetchPhotoWork ext (newDirectoryWork ''/photos'') legacyFiles 0 ''c.jpg'' 1000 1000
     = (Inr (Work []), (newDirectoryWork ''/photos'')\<lparr> data := Some legacySnapshot \<rparr>)"
proof -
  have own: "ownRecord legacySnapshot ''a.jpg'' = Some [(''tilt'', JNumber (Num 3))]"
    "ownRecord legacySnapshot ''b.jpg'' = None" "ownRecord legacySnapshot ''c.jpg'' = None"
    by (simp_all add: ownRecord_def legacySnapshot_def)
  have leg: "legacyRules legacySnapshot ''b.jpg'' = Some [''star=yes'']"
    "legacyRules legacySnapshot ''c.jpg'' = None"
    by (simp_all add: legacyRules_def legacySnapshot_def)
  show ?thesis
    using fetchPhotoWork_cases [OF legacyFiles_fetch, of ext "''a.jpg''" 1000 1000]
      fetchPhotoWork_cases [OF legacyFiles_fetch, of ext "''b.jpg''" 1000 1000]
      fetchPhotoWork_cases [OF legacyFiles_fetch, of ext "''c.jpg''" 1000 1000]
    by (simp add: own leg star_rule objectPrototypeMembers_def)
qed

text \<open>
  Claim C5 says that for every basename \<open>fetchPhotoWork\<close> returns the own record,
  else the translation of the legacy rules, else an empty record. That is what it
  does for a basename that is not the name of a member of \<open>Object.prototype\<close>
  (\<open>fetchPhotoWork_cases\<close>, \<open>legacyFiles_sources\<close>), and it leaves the snapshot as
  fetched (\<open>fetchData_snapshot\<close>). The own mapping is a plain object read with
  \<open>photos[photoBasename]\<close>, so for a photo named \<open>constructor\<close> in a directory
  with no sidecar at all the lookup finds \<open>Object.prototype.constructor\<close>, which is
  truthy, and \<open>fetchPhotoWork\<close> resolves to that function: not an own record, not a
  translation and not the empty record. With a legacy sidecar the same: the legacy
  rules of a photo named \<open>toString\<close> are never translated.
\<close>

theorem fetchPhotoWork_prototype_member:
  "fetchPhotoWork ext (newDirectoryWork ''/photos'') sampleFiles 0 ''constructor'' 1000 1000
     = (Inr (PrototypeMember ''constructor''),
        (newDirectoryWork ''/photos'')
          \<lparr> data := Some \<lparr> anselData = \<lparr> photos = [] \<rparr>, picasaData = None \<rparr> \<rparr>)
   \<and> fetchPhotoWork ext (newDirectoryWork ''/photos'')
        \<lparr> anselJson = Missing, picasaIni = Some [''[toString]'', ''star=yes''],
          editedPicasaData = None \<rparr> 0 ''toString'' 1000 1000
     = (Inr (PrototypeMember ''toString''),
        (newDirectoryWork ''/photos'')
          \<lparr> data := Some \<lparr> anselData = \<lparr> photos = [] \<rparr>,
                           picasaData = Some \<lparr> picasaPhotos = [(''toString'', [''star=yes''])] \<rparr> \<rparr> \<rparr>)"
  by (simp add: fetchPhotoWork_def fetchData_def settleFetch_def readDirectory_def
      fetchAnselJson_def fetchPicasaIni_def sampleFiles_def newDirectoryWork_def
      parseSections_def onLine_def flushCurrentSection_def matchSectionStart_def
      anyChars_def isLineTerminator_def obj_assign_def obj_get_def objectPrototypeMembers_def)

text \<open>
  Claim C3, as the code has it. After a successful \<open>storePhotoWork\<close> of a
  non-empty record, \<open>fetchPhotoWork\<close> for that name, at any time and whatever is on
  disk, returns the canonical copy of the record, which has the same keys and values
  (legacy data or not; a key \<open>__proto__\<close>, which no edit record has, is not
  copied). After storing the empty record, for a basename that is not the name of a
  member of \<open>Object.prototype\<close>, it returns the empty record when the snapshot has
  no legacy rules for that name, and the translation of those rules when it has.
  When the own mapping is left empty, the store cycle removes \<open>ansel.json\<close>.
\<close>

theorem store_then_fetch:
  assumes "storePhotoWork dw files now name work = (Inr u, dw')"
  shows "(work \<noteq> [] \<longrightarrow>
            (\<exists>canonical. toCanonical jsvalueIsObject work = Some canonical
               \<and> fetchPhotoWork ext dw' files' now' name mw mh = (Inr (Work canonical), dw')
               \<and> map_of canonical = (map_of work)(''__proto__'' := None)))
         \<and> (work = [] \<and> name \<notin> set objectPrototypeMembers
              \<and> snapshotLegacyRules dw' name = None \<longrightarrow>
            fetchPhotoWork ext dw' files' now' name mw mh = (Inr (Work []), dw'))
         \<and> (\<forall>rules. work = [] \<and> name \<notin> set objectPrototypeMembers
              \<and> snapshotLegacyRules dw' name = Some rules \<longrightarrow>
            fetchPhotoWork ext dw' files' now' name mw mh
              = (Inr (Work (createPhotoWorkFromPicasaRules ext rules (directoryPath dw')
                              name mw mh)),
                 dw'))
         \<and> (work = [] \<and> ownMapping dw' = [] \<longrightarrow>
            anselJson (snd (storeCycle dw' files' True)) = Missing)"
proof -
  from storePhotoWork_result [OF assms] obtain d dw1 changed where
    busy: "isStoreRunning dw' \<or> needsStoreFollowup dw'"
    and snap: "data dw' = Some (d\<lparr> anselData := (anselData d)\<lparr> photos := changed \<rparr> \<rparr>)"
    and deleted: "work = [] \<longrightarrow> changed = obj_delete (photos (anselData d)) name"
    and assigned: "work \<noteq> [] \<longrightarrow>
                (\<exists>canonical. toCanonical jsvalueIsObject work = Some canonical
                   \<and> changed = obj_set (photos (anselData d)) name canonical)"
    by blast
  let ?d' = "d\<lparr> anselData := (anselData d)\<lparr> photos := changed \<rparr> \<rparr>"
  have cached: "fetchData dw' files' now' = (Inr ?d', dw')"
    using fetchData_cached [OF snap busy] .
  note fetched = fetchPhotoWork_cases [OF cached, of ext name mw mh]
  have legacy: "legacyRules ?d' name = snapshotLegacyRules dw' name"
    by (simp add: snapshotLegacyRules_def snap legacyRules_def)
  have removed: "ownRecord ?d' name = None" if "work = []"
    using that deleted by (simp add: ownRecord_def map_of_obj_delete)
  have c1: "\<exists>canonical. toCanonical jsvalueIsObject work = Some canonical
               \<and> fetchPhotoWork ext dw' files' now' name mw mh = (Inr (Work canonical), dw')
               \<and> map_of canonical = (map_of work)(''__proto__'' := None)" if "work \<noteq> []"
  proof -
    from that assigned obtain canonical
      where canonical: "toCanonical jsvalueIsObject work = Some canonical"
        and changed: "changed = obj_set (photos (anselData d)) name canonical"
      by blast
    have "ownRecord ?d' name = Some canonical"
      by (simp add: ownRecord_def changed map_of_obj_set)
    with fetched have "fetchPhotoWork ext dw' files' now' name mw mh = (Inr (Work canonical), dw')"
      by simp
    with canonical map_of_toCanonical [OF canonical] show ?thesis
      by blast
  qed
  have c2: "fetchPhotoWork ext dw' files' now' name mw mh = (Inr (Work []), dw')"
    if "work = [] \<and> name \<notin> set objectPrototypeMembers \<and> snapshotLegacyRules dw' name = None"
    using fetched removed that legacy by simp
  have c3: "fetchPhotoWork ext dw' files' now' name mw mh
              = (Inr (Work (createPhotoWorkFromPicasaRules ext rules (directoryPath dw')
                              name mw mh)),
                 dw')"
    if "work = [] \<and> name \<notin> set objectPrototypeMembers
          \<and> snapshotLegacyRules dw' name = Some rules" for rules
    using fetched removed that legacy by simp
  have c4: "anselJson (snd (storeCycle dw' files' True)) = Missing"
    if "work = [] \<and> ownMapping dw' = []"
  proof -
    from that have "changed = []"
      by (simp add: ownMapping_def snap)
    then show ?thesis
      by (simp add: storeCycle_def storeCycleWrite_def snap Object_keys_def Let_def)
  qed
  from c1 c2 c3 c4 show ?thesis
    by blast
qed

lemma toCanonical_sample:
  "toCanonical jsvalueIsObject [(''tilt'', JNumber (Num 3)), (''flagged'', JBool True)]
     = Some [(''flagged'', JBool True), (''tilt'', JNumber (Num 3))]"
  by code_simp

lemma store_sample:
  "storePhotoWork (newDirectoryWork ''/photos'') sampleFiles 0 ''a.jpg''
       [(''tilt'', JNumber (Num 3)), (''flagged'', JBool True)]
     = (Inr (), storedState)"
  by (simp add: storePhotoWork_def fetchData_def settleFetch_def readDirectory_def
      fetchAnselJson_def fetchPicasaIni_def sampleFiles_def newDirectoryWork_def
      onDataChanged_def toCanonical_sample Object_keys_def obj_assign_def obj_get_def
      Let_def storedState_def)

lemma remove_sample:
  "storePhotoWork storedState sampleFiles 5 ''a.jpg'' [] = (Inr (), removedState)"
  by (simp add: storePhotoWork_def fetchData_def onDataChanged_def Object_keys_def
      obj_delete_def Let_def storedState_def removedState_def)

lemma legacy_remove_sample:
  "storePhotoWork (newDirectoryWork ''/photos'') picasaOnlyFiles 0 ''a.jpg'' []
     = (Inr (), legacyRemovedState)"
  by (simp add: storePhotoWork_def fetchData_def settleFetch_def readDirectory_def
      fetchAnselJson_def fetchPicasaIni_def picasaOnlyFiles_def newDirectoryWork_def
      onDataChanged_def Object_keys_def obj_delete_def Let_def
      parseSections_def onLine_def flushCurrentSection_def matchSectionStart_def
      anyChars_def isLineTerminator_def obj_assign_def legacyRemovedState_def)

theorem store_then_fetch_witness:
  "storePhotoWork (newDirectoryWork ''/photos'') sampleFiles 0 ''a.jpg''
       [(''tilt'', JNumber (Num 3)), (''flagged'', JBool True)]
     = (Inr (), storedState)
   \<and> (\<forall>ext :: unit externals.
         fetchPhotoWork ext storedState sampleFiles 9 ''a.jpg'' 1000 1000
           = (Inr (Work [(''flagged'', JBool True), (''tilt'', JNumber (Num 3))]), storedState))
   \<and> storePhotoWork storedState sampleFiles 5 ''a.jpg'' [] = (Inr (), removedState)
   \<and> (\<forall>ext :: unit externals.
         fetchPhotoWork ext removedState sampleFiles 9 ''a.jpg'' 1000 1000
           = (Inr (Work []), removedState))
   \<and> storePhotoWork (newDirectoryWork ''/photos'') picasaOnlyFiles 0 ''a.jpg'' []
       = (Inr (), legacyRemovedState)
   \<and> (\<forall>ext :: unit externals.
         fetchPhotoWork ext legacyRemovedState picasaOnlyFiles 9 ''a.jpg'' 1000 1000
           = (Inr (Work (createPhotoWorkFromPicasaRules ext [''star=yes''] ''/photos''
                           ''a.jpg'' 1000 1000)), legacyRemovedState))
   \<and> anselJson (snd (storeCycle removedState
         (sampleFiles\<lparr> anselJson := Content \<lparr> photos = [(''a.jpg'', [(''flagged'', JBool True)])] \<rparr> \<rparr>)
         True)) = Missing"
proof -
  have a: "fetchPhotoWork ext storedState sampleFiles 9 ''a.jpg'' 1000 1000
           = (Inr (Work [(''flagged'', JBool True), (''tilt'', JNumber (Num 3))]), storedState)"
    for ext :: "unit externals"
    using store_then_fetch [OF store_sample, of ext sampleFiles 9 1000 1000]
    by (simp add: toCanonical_sample)
  have none: "snapshotLegacyRules removedState ''a.jpg'' = None"
    and empty: "ownMapping removedState = []"
    and plain: "''a.jpg'' \<notin> set objectPrototypeMembers"
    by (simp_all add: snapshotLegacyRules_def legacyRules_def ownMapping_def removedState_def
        objectPrototypeMembers_def)
  have b: "fetchPhotoWork ext removedState sampleFiles 9 ''a.jpg'' 1000 1000
           = (Inr (Work []), removedState)"
    for ext :: "unit externals"
    using store_then_fetch [OF remove_sample, of ext sampleFiles 9 1000 1000] none plain
    by simp
  have c: "anselJson (snd (storeCycle removedState
         (sampleFiles\<lparr> anselJson := Content \<lparr> photos = [(''a.jpg'', [(''flagged'', JBool True)])] \<rparr> \<rparr>)
         True)) = Missing"
    using store_then_fetch [OF remove_sample, of plainCollaborators
        "sampleFiles\<lparr> anselJson := Content \<lparr> photos = [(''a.jpg'', [(''flagged'', JBool True)])] \<rparr> \<rparr>"
        9 1000 1000] empty
    by simp
  have rules: "snapshotLegacyRules legacyRemovedState ''a.jpg'' = Some [''star=yes'']"
    and path: "directoryPath legacyRemovedState = ''/photos''"
    by (simp_all add: snapshotLegacyRules_def legacyRules_def legacyRemovedState_def)
  have d: "fetchPhotoWork ext legacyRemovedState picasaOnlyFiles 9 ''a.jpg'' 1000 1000
           = (Inr (Work (createPhotoWorkFromPicasaRules ext [''star=yes''] ''/photos''
                           ''a.jpg'' 1000 1000)), legacyRemovedState)"
    for ext :: "unit externals"
    using store_then_fetch [OF legacy_remove_sample, of ext picasaOnlyFiles 9 1000 1000]
      rules plain path
    by simp
  from store_sample remove_sample legacy_remove_sample a b c d show ?thesis
    by blast
qed

text \<open>
  In a directory whose legacy sidecar has the section \<open>[a.jpg]\<close> with the rule
  \<open>star=yes\<close>, storing the empty record for \<open>a.jpg\<close> and fetching it gives the
  flagged record of the legacy rules, not the empty record. And in a directory with
  no sidecar at all, storing the empty record for a photo named \<open>constructor\<close>
  deletes nothing that the lookup would not find again: the fetch resolves to
  \<open>Object.prototype.constructor\<close>, not to the empty record.
\<close>

theorem store_empty_then_fetch_counterexample:
  "storePhotoWork (newDirectoryWork ''/photos'') picasaOnlyFiles 0 ''a.jpg'' []
     = (Inr (), legacyRemovedState)
   \<and> fetchPhotoWork plainCollaborators legacyRemovedState picasaOnlyFiles 1 ''a.jpg'' 1000 1000
     = (Inr (Work [(''flagged'', JBool True)]), legacyRemovedState)
   \<and> storePhotoWork (newDirectoryWork ''/photos'') sampleFiles 0 ''constructor'' []
     = (Inr (), removedState\<lparr> needsStoreFollowup := False \<rparr>)
   \<and> fetchPhotoWork plainCollaborators (removedState\<lparr> needsStoreFollowup := False \<rparr>)
        sampleFiles 1 ''constructor'' 1000 1000
     = (Inr (PrototypeMember ''constructor''), removedState\<lparr> needsStoreFollowup := False \<rparr>)"
proof -
  have legacy: "storePhotoWork (newDirectoryWork ''/photos'') picasaOnlyFiles 0 ''a.jpg'' []
       = (Inr (), legacyRemovedState)
     \<and> fetchPhotoWork plainCollaborators legacyRemovedState picasaOnlyFiles 1 ''a.jpg'' 1000 1000
       = (Inr (Work [(''flagged'', JBool True)]), legacyRemovedState)"
    by (simp add: storePhotoWork_def fetchData_def settleFetch_def readDirectory_def
        fetchAnselJson_def fetchPicasaIni_def picasaOnlyFiles_def newDirectoryWork_def
        onDataChanged_def Object_keys_def obj_delete_def Let_def
        parseSections_def onLine_def flushCurrentSection_def matchSectionStart_def
        anyChars_def isLineTerminator_def obj_assign_def obj_get_def objectPrototypeMembers_def
        legacyRemovedState_def fetchPhotoWork_def star_rule)
  have member: "storePhotoWork (newDirectoryWork ''/photos'') sampleFiles 0 ''constructor'' []
       = (Inr (), removedState\<lparr> needsStoreFollowup := False \<rparr>)
     \<and> fetchPhotoWork plainCollaborators (removedState\<lparr> needsStoreFollowup := False \<rparr>)
          sampleFiles 1 ''constructor'' 1000 1000
       = (Inr (PrototypeMember ''constructor''), removedState\<lparr> needsStoreFollowup := False \<rparr>)"
    by (simp add: storePhotoWork_def fetchData_def settleFetch_def readDirectory_def
        fetchAnselJson_def fetchPicasaIni_def sampleFiles_def newDirectoryWork_def
        onDataChanged_def Object_keys_def obj_delete_def Let_def removedState_def
        fetchPhotoWork_def obj_get_def objectPrototypeMembers_def)
  from legacy member show ?thesis
    by simp
qed

section \<open>Eviction from the registry\<close>

lemma obj_get_append_fresh:
  "k \<notin> set (Object_keys kept) \<Longrightarrow> obj_get (kept @ (k, v) # rest) k = Own v"
  by (induction kept) (auto simp: obj_get_def Object_keys_def)

lemma obj_delete_append_fresh:
  "k \<notin> set (Object_keys kept) \<Longrightarrow> k \<notin> set (Object_keys rest) \<Longrightarrow>
   obj_delete (kept @ (k, v) # rest) k = kept @ rest"
proof -
  assume "k \<notin> set (Object_keys kept)" "k \<notin> set (Object_keys rest)"
  then have "filter (\<lambda>kv. fst kv \<noteq> k) kept = kept" "filter (\<lambda>kv. fst kv \<noteq> k) rest = rest"
    by (auto simp: Object_keys_def filter_id_conv)
  then show ?thesis
    by (simp add: obj_delete_def)
qed

lemma sweep_suffix:
  "distinct (Object_keys (kept @ rest)) \<Longrightarrow>
   foldl sweepStep \<lparr> directoryWorkByPath = kept @ rest, directoryWorkCacheSize = c \<rparr>
       (Object_keys rest)
   = \<lparr> directoryWorkByPath = kept @ busyEntries rest,
       directoryWorkCacheSize = c - int (length rest) + int (length (busyEntries rest)) \<rparr>"
proof (induction rest arbitrary: kept c)
  case Nil
  then show ?case by (simp add: Object_keys_def busyEntries_def)
next
  case (Cons e rest)
  obtain k dw where e: "e = (k, dw)" by (cases e)
  from Cons.prems e have fresh: "k \<notin> set (Object_keys kept)" "k \<notin> set (Object_keys rest)"
    by (auto simp: Object_keys_def)
  show ?case
  proof (cases "isIdle dw")
    case True
    from Cons.prems e have d: "distinct (Object_keys (kept @ rest))"
      by (simp add: Object_keys_def)
    have step: "sweepStep \<lparr> directoryWorkByPath = kept @ e # rest, directoryWorkCacheSize = c \<rparr> k
              = \<lparr> directoryWorkByPath = kept @ rest, directoryWorkCacheSize = c - 1 \<rparr>"
      using True fresh by (simp add: sweepStep_def e obj_get_append_fresh obj_delete_append_fresh)
    show ?thesis
      using Cons.IH [OF d, of "c - 1"] True
      by (simp add: e Object_keys_def step [unfolded e] busyEntries_def)
  next
    case False
    from Cons.prems e have d: "distinct (Object_keys ((kept @ [e]) @ rest))"
      by (simp add: Object_keys_def)
    have step: "sweepStep \<lparr> directoryWorkByPath = kept @ e # rest, directoryWorkCacheSize = c \<rparr> k
              = \<lparr> directoryWorkByPath = kept @ e # rest, directoryWorkCacheSize = c \<rparr>"
      using False fresh by (simp add: sweepStep_def e obj_get_append_fresh)
    show ?thesis
      using Cons.IH [OF d, of c] False
      by (simp add: e Object_keys_def step [unfolded e] busyEntries_def)
  qed
qed

lemma sweep_all:
  assumes "consistent reg"
  shows "foldl sweepStep reg (Object_keys (directoryWorkByPath reg))
         = \<lparr> directoryWorkByPath = busyEntries (directoryWorkByPath reg),
             directoryWorkCacheSize = int (length (busyEntries (directoryWorkByPath reg))) \<rparr>"
proof -
  have reg: "reg = \<lparr> directoryWorkByPath = [] @ directoryWorkByPath reg,
                     directoryWorkCacheSize = int (length (directoryWorkByPath reg)) \<rparr>"
    using assms by (simp add: consistent_def)
  have "foldl sweepStep \<lparr> directoryWorkByPath = [] @ directoryWorkByPath reg,
                     directoryWorkCacheSize = int (length (directoryWorkByPath reg)) \<rparr>
          (Object_keys (directoryWorkByPath reg))
        = \<lparr> directoryWorkByPath = [] @ busyEntries (directoryWorkByPath reg),
            directoryWorkCacheSize = int (length (directoryWorkByPath reg))
              - int (length (directoryWorkByPath reg))
              + int (length (busyEntries (directoryWorkByPath reg))) \<rparr>"
    using assms by (intro sweep_suffix) (simp add: consistent_def)
  with reg show ?thesis by simp
qed

lemma obj_set_fresh:
  "k \<notin> set (Object_keys obj) \<Longrightarrow> obj_set obj k v = obj @ [(k, v)]"
  by (induction obj k v rule: obj_set.induct) (auto simp: Object_keys_def)

lemma obj_get_Undefined_keys:
  "obj_get obj k = Undefined \<Longrightarrow> k \<notin> set (Object_keys obj)"
  by (auto simp: obj_get_def Object_keys_def map_of_eq_None_iff split: option.splits if_splits)

lemma obj_get_fresh:
  "k \<notin> set (Object_keys obj) \<Longrightarrow>
   obj_get obj k = (if k \<in> set objectPrototypeMembers then Inherited else Undefined)"
proof -
  assume "k \<notin> set (Object_keys obj)"
  then have "map_of obj k = None"
    by (simp add: Object_keys_def map_of_eq_None_iff)
  then show ?thesis
    by (simp add: obj_get_def)
qed

lemma obj_get_Own_keys:
  "obj_get obj k = Own v \<Longrightarrow> k \<in> set (Object_keys obj)"
  by (auto simp: obj_get_def Object_keys_def split: option.splits if_splits
      dest: map_of_SomeD intro: rev_image_eqI)

lemma busyEntries_keys: "set (Object_keys (busyEntries obj)) \<subseteq> set (Object_keys obj)"
  by (auto simp: busyEntries_def Object_keys_def)

lemma busyEntries_distinct:
  "distinct (Object_keys obj) \<Longrightarrow> distinct (Object_keys (busyEntries obj))"
  by (simp add: busyEntries_def Object_keys_def distinct_map_filter)

lemma getDirectoryWork_known:
  "obj_get (directoryWorkByPath reg) path = Own dw \<Longrightarrow>
   getDirectoryWork reg path = (Some dw, reg)"
  by (simp add: getDirectoryWork_def)

lemma getDirectoryWork_member:
  "obj_get (directoryWorkByPath reg) path = Inherited \<Longrightarrow>
   getDirectoryWork reg path = (None, reg)"
  by (simp add: getDirectoryWork_def)

lemma getDirectoryWork_new:
  assumes "consistent reg" and "obj_get (directoryWorkByPath reg) path = Undefined"
  shows "getDirectoryWork reg path
         = (Some (newDirectoryWork path),
            if directoryWorkCacheSize reg \<ge> maxDirectoryWorkCacheSize
            then \<lparr> directoryWorkByPath =
                     busyEntries (directoryWorkByPath reg) @ [(path, newDirectoryWork path)],
                   directoryWorkCacheSize =
                     int (length (busyEntries (directoryWorkByPath reg))) + 1 \<rparr>
            else \<lparr> directoryWorkByPath = directoryWorkByPath reg @ [(path, newDirectoryWork path)],
                   directoryWorkCacheSize = directoryWorkCacheSize reg + 1 \<rparr>)"
proof -
  from assms(2) have fresh: "path \<notin> set (Object_keys (directoryWorkByPath reg))"
    by (rule obj_get_Undefined_keys)
  with busyEntries_keys have fresh': "path \<notin> set (Object_keys (busyEntries (directoryWorkByPath reg)))"
    by blast
  show ?thesis
    using assms(2) fresh fresh'
    by (simp add: getDirectoryWork_def Let_def sweep_all [OF assms(1)] obj_set_fresh)
qed

text \<open>
  The counter and the mapping agree at the start, and every operation keeps them so,
  in whatever state the instances are.
\<close>

lemma emptyRegistry_consistent: "consistent emptyRegistry"
  by (simp add: consistent_def emptyRegistry_def Object_keys_def)

lemma getDirectoryWork_consistent:
  assumes "consistent reg"
  shows "consistent (snd (getDirectoryWork reg path))"
proof (cases "obj_get (directoryWorkByPath reg) path")
  case Undefined
  then have fresh: "path \<notin> set (Object_keys (directoryWorkByPath reg))"
    by (rule obj_get_Undefined_keys)
  with busyEntries_keys have fresh': "path \<notin> set (Object_keys (busyEntries (directoryWorkByPath reg)))"
    by blast
  from assms have d: "distinct (Object_keys (directoryWorkByPath reg))"
    by (simp add: consistent_def)
  show ?thesis
    using assms fresh fresh' d busyEntries_distinct [OF d]
    by (simp add: getDirectoryWork_new [OF assms Undefined] consistent_def Object_keys_def)
next
  case (Own dw)
  with assms show ?thesis by (simp add: getDirectoryWork_known)
next
  case Inherited
  with assms show ?thesis by (simp add: getDirectoryWork_member)
qed

lemma getDirectoryWork_present:
  assumes "consistent reg" and "fst (getDirectoryWork reg path) = Some dw"
  shows "obj_get (directoryWorkByPath (snd (getDirectoryWork reg path))) path = Own dw"
proof (cases "obj_get (directoryWorkByPath reg) path")
  case Undefined
  then have fresh: "path \<notin> set (Object_keys (directoryWorkByPath reg))"
    by (rule obj_get_Undefined_keys)
  with busyEntries_keys have fresh': "path \<notin> set (Object_keys (busyEntries (directoryWorkByPath reg)))"
    by blast
  show ?thesis
    using obj_get_append_fresh [OF fresh, of "newDirectoryWork path" "[]"]
      obj_get_append_fresh [OF fresh', of "newDirectoryWork path" "[]"] assms(2)
    by (simp add: getDirectoryWork_new [OF assms(1) Undefined] split: if_splits)
next
  case (Own found)
  with assms(2) show ?thesis by (simp add: getDirectoryWork_known)
next
  case Inherited
  with assms(2) show ?thesis by (simp add: getDirectoryWork_member)
qed

lemma obj_set_present_keys:
  "k \<in> set (Object_keys obj) \<Longrightarrow> Object_keys (obj_set obj k v) = Object_keys obj"
  by (induction obj k v rule: obj_set.induct) (auto simp: Object_keys_def)

lemma touch_consistent:
  assumes "consistent reg" and "obj_get (directoryWorkByPath reg) k = Own dw"
  shows "consistent (reg\<lparr> directoryWorkByPath := obj_set (directoryWorkByPath reg) k v \<rparr>)"
proof -
  note keys = obj_set_present_keys [OF obj_get_Own_keys [OF assms(2)], of v]
  then have "length (obj_set (directoryWorkByPath reg) k v) = length (directoryWorkByPath reg)"
    by (metis Object_keys_def length_map)
  with assms(1) keys show ?thesis
    by (simp add: consistent_def)
qed

lemma exportedFetchPhotoWork_consistent:
  assumes "consistent reg"
  shows "consistent (snd (exportedFetchPhotoWork ext reg files now photoDir photoFileName mw mh))"
proof (cases "fst (getDirectoryWork reg photoDir)")
  case None
  with getDirectoryWork_consistent [OF assms, of photoDir] show ?thesis
    by (auto simp: exportedFetchPhotoWork_def split: prod.splits)
next
  case (Some dw)
  from getDirectoryWork_consistent [OF assms, of photoDir]
    getDirectoryWork_present [OF assms Some] Some
  show ?thesis
    by (auto simp: exportedFetchPhotoWork_def split: prod.splits intro!: touch_consistent)
qed

lemma exportedStorePhotoWork_consistent:
  assumes "consistent reg"
  shows "consistent (snd (exportedStorePhotoWork reg files now photoDir photoFileName work))"
proof (cases "fst (getDirectoryWork reg photoDir)")
  case None
  with getDirectoryWork_consistent [OF assms, of photoDir] show ?thesis
    by (auto simp: exportedStorePhotoWork_def split: prod.splits)
next
  case (Some dw)
  from getDirectoryWork_consistent [OF assms, of photoDir]
    getDirectoryWork_present [OF assms Some] Some
  show ?thesis
    by (auto simp: exportedStorePhotoWork_def split: prod.splits intro!: touch_consistent)
qed

lemma storeTimerFired_consistent:
  "consistent reg \<Longrightarrow> consistent (storeTimerFired reg files ioOk photoDir)"
  by (auto simp: storeTimerFired_def split: lookup.splits intro!: touch_consistent)

lemma accessAll_idle:
  "consistent (accessAll emptyRegistry paths)
   \<and> busyEntries (directoryWorkByPath (accessAll emptyRegistry paths)) = []
   \<and> directoryWorkCacheSize (accessAll emptyRegistry paths) \<le> maxDirectoryWorkCacheSize"
proof (induction paths rule: rev_induct)
  case Nil
  then show ?case
    by (simp add: accessAll_def emptyRegistry_def consistent_def busyEntries_def Object_keys_def
        maxDirectoryWorkCacheSize_def)
next
  case (snoc path paths)
  let ?r = "accessAll emptyRegistry paths"
  from snoc have c: "consistent ?r" and idle: "busyEntries (directoryWorkByPath ?r) = []"
    and size: "directoryWorkCacheSize ?r \<le> maxDirectoryWorkCacheSize"
    by simp_all
  have step: "accessAll emptyRegistry (paths @ [path]) = snd (getDirectoryWork ?r path)"
    by (simp add: accessAll_def)
  have new: "isIdle (newDirectoryWork path)"
    by (simp add: isIdle_def newDirectoryWork_def)
  show ?case
  proof (cases "obj_get (directoryWorkByPath ?r) path")
    case Undefined
    have "consistent (snd (getDirectoryWork ?r path))"
      by (rule getDirectoryWork_consistent [OF c])
    moreover from idle size new
    have "busyEntries (directoryWorkByPath (snd (getDirectoryWork ?r path))) = []
          \<and> directoryWorkCacheSize (snd (getDirectoryWork ?r path)) \<le> maxDirectoryWorkCacheSize"
      by (simp add: getDirectoryWork_new [OF c Undefined] busyEntries_def
          maxDirectoryWorkCacheSize_def)
    ultimately show ?thesis
      unfolding step by simp
  next
    case (Own dw)
    with c idle size show ?thesis
      unfolding step by (simp add: getDirectoryWork_known)
  next
    case Inherited
    with c idle size show ?thesis
      unfolding step by (simp add: getDirectoryWork_member)
  qed
qed

text \<open>
  Claim C7, as the code has it. Take any registry whose counter is the number of its
  entries, with its instances in any state, and a path for which the lookup gives
  \<open>undefined\<close>. A request for that path made when the registry is at or past its
  capacity returns a new instance and leaves exactly the entries that are not idle
  and the new one, the counter again the number of entries: every idle instance is
  evicted in one sweep, before the insertion. If the registry is over the cap right
  after a request, some resident instance is not idle. And any sequence of requests
  with all instances idle, N+1 distinct directories among them, leaves at most N
  entries. The sweep runs only on such a request: it is not true that the registry is
  over the cap only while instances are busy.
\<close>

theorem getDirectoryWork_eviction:
  assumes "consistent reg" and "obj_get (directoryWorkByPath reg) path = Undefined"
  shows "(directoryWorkCacheSize reg \<ge> maxDirectoryWorkCacheSize \<longrightarrow>
            fst (getDirectoryWork reg path) = Some (newDirectoryWork path)
            \<and> set (directoryWorkByPath (snd (getDirectoryWork reg path)))
                = set (busyEntries (directoryWorkByPath reg)) \<union> {(path, newDirectoryWork path)}
            \<and> consistent (snd (getDirectoryWork reg path)))
         \<and> (int (length (directoryWorkByPath (snd (getDirectoryWork reg path))))
                > maxDirectoryWorkCacheSize \<longrightarrow>
              busyEntries (directoryWorkByPath (snd (getDirectoryWork reg path))) \<noteq> [])
         \<and> (\<forall>paths. int (length (directoryWorkByPath (accessAll emptyRegistry paths)))
                        \<le> maxDirectoryWorkCacheSize)"
proof -
  from assms(1) have size: "directoryWorkCacheSize reg = int (length (directoryWorkByPath reg))"
    by (simp add: consistent_def)
  note new = getDirectoryWork_new [OF assms]
  have sweep: "fst (getDirectoryWork reg path) = Some (newDirectoryWork path)
            \<and> set (directoryWorkByPath (snd (getDirectoryWork reg path)))
                = set (busyEntries (directoryWorkByPath reg)) \<union> {(path, newDirectoryWork path)}
            \<and> consistent (snd (getDirectoryWork reg path))"
    if "directoryWorkCacheSize reg \<ge> maxDirectoryWorkCacheSize"
    using that getDirectoryWork_consistent [OF assms(1), of path] by (simp add: new)
  have busy: "busyEntries (directoryWorkByPath (snd (getDirectoryWork reg path))) \<noteq> []"
    if over: "int (length (directoryWorkByPath (snd (getDirectoryWork reg path))))
                > maxDirectoryWorkCacheSize"
  proof (cases "directoryWorkCacheSize reg \<ge> maxDirectoryWorkCacheSize")
    case True
    with over have "busyEntries (directoryWorkByPath reg) \<noteq> []"
      by (auto simp: new maxDirectoryWorkCacheSize_def)
    with True show ?thesis
      by (simp add: new busyEntries_def)
  next
    case False
    with over size show ?thesis
      by (simp add: new)
  qed
  have all: "int (length (directoryWorkByPath (accessAll emptyRegistry paths)))
                        \<le> maxDirectoryWorkCacheSize" for paths
    using accessAll_idle [of paths] by (simp add: consistent_def)
  from sweep busy all show ?thesis
    by blast
qed

lemma dirName_inj: "dirName i = dirName j \<Longrightarrow> i = j"
proof -
  assume "dirName i = dirName j"
  then have "length (dirName i) = length (dirName j)" by simp
  then show ?thesis by (simp add: dirName_def)
qed

lemma dirName_fresh: "dirName k \<notin> set (Object_keys (map (\<lambda>i. (dirName i, f i)) [a..<b]))"
  if "k < a \<or> b \<le> k"
  using that by (auto simp: Object_keys_def dest: dirName_inj)

lemma dirName_distinct: "distinct (Object_keys (map (\<lambda>i. (dirName i, f i)) [a..<b]))"
  by (auto simp: Object_keys_def distinct_map intro!: inj_onI dest: dirName_inj)

lemma other_name_fresh:
  "hd (tl path) \<noteq> CHR ''d'' \<Longrightarrow> path \<notin> set (Object_keys (crowdEntries n k))"
  by (auto simp: crowdEntries_def Object_keys_def dirName_def)

lemma store_new:
  "storePhotoWork (newDirectoryWork path) sampleFiles 0 ''a.jpg'' [(''flagged'', JBool True)]
     = (Inr (), busyWork path)"
  by (simp add: storePhotoWork_def fetchData_def settleFetch_def readDirectory_def
      fetchAnselJson_def fetchPicasaIni_def sampleFiles_def newDirectoryWork_def
      onDataChanged_def toCanonical_def obj_assign_def Object_keys_def obj_get_def Let_def
      busyWork_def)

lemma cycle_done: "fst (storeCycle (busyWork path) sampleFiles True) = idleWork path"
  by (simp add: storeCycle_def storeCycleWrite_def storeCycleSettled_def Let_def busyWork_def
      idleWork_def Object_keys_def sampleFiles_def)

lemma busyEntries_busy:
  "busyEntries (map (\<lambda>i. (dirName i, busyWork (dirName i))) xs)
     = map (\<lambda>i. (dirName i, busyWork (dirName i))) xs"
  by (induction xs) (simp_all add: busyEntries_def isIdle_def busyWork_def)

lemma busyEntries_idle:
  "busyEntries (map (\<lambda>i. (dirName i, idleWork (dirName i))) xs) = []"
  by (induction xs) (simp_all add: busyEntries_def isIdle_def busyWork_def idleWork_def)

lemma obj_set_append_fresh:
  "k \<notin> set (Object_keys kept) \<Longrightarrow> obj_set (kept @ (k, v) # rest) k w = kept @ (k, w) # rest"
  by (induction kept) (auto simp: Object_keys_def)

lemma dirName_plain: "dirName i \<notin> set objectPrototypeMembers"
  by (simp add: objectPrototypeMembers_def dirName_def)

lemma crowd_consistent: "k \<le> n \<Longrightarrow> consistent (crowd n k)"
proof -
  assume k: "k \<le> n"
  have "crowdEntries n k
          = map (\<lambda>i. (dirName i, if i < k then idleWork (dirName i) else busyWork (dirName i)))
              [0..<n]"
  proof -
    from k have "[0..<n] = [0..<k] @ [k..<n]"
      by (metis le_add_diff_inverse upt_add_eq_append zero_le)
    then show ?thesis
      by (simp add: crowdEntries_def)
  qed
  then show ?thesis
    by (simp add: consistent_def crowd_def dirName_distinct)
qed

text \<open>
  The stores in \<open>n\<close> directories leave \<open>n\<close> instances with a store under way, none
  evicted; the timers then leave them idle one by one.
\<close>

lemma storeInAll_crowd: "storeInAll emptyRegistry n = crowd n 0"
proof (induction n)
  case 0
  show ?case
    by (simp add: storeInAll_def crowd_def crowdEntries_def emptyRegistry_def)
next
  case (Suc n)
  let ?busy = "map (\<lambda>i. (dirName i, busyWork (dirName i))) [0..<n]"
  have entries: "directoryWorkByPath (crowd n 0) = ?busy"
    and size: "directoryWorkCacheSize (crowd n 0) = int n"
    by (simp_all add: crowd_def crowdEntries_def)
  have fresh: "dirName n \<notin> set (Object_keys ?busy)"
    by (rule dirName_fresh) simp
  then have none: "obj_get (directoryWorkByPath (crowd n 0)) (dirName n) = Undefined"
    unfolding entries by (simp add: obj_get_fresh dirName_plain)
  have c: "consistent (crowd n 0)"
    by (rule crowd_consistent) simp
  have got: "getDirectoryWork (crowd n 0) (dirName n)
      = (Some (newDirectoryWork (dirName n)),
         \<lparr> directoryWorkByPath = ?busy @ [(dirName n, newDirectoryWork (dirName n))],
           directoryWorkCacheSize = int n + 1 \<rparr>)"
    by (simp add: getDirectoryWork_new [OF c none] entries size busyEntries_busy)
  have "snd (exportedStorePhotoWork (crowd n 0) sampleFiles 0 (dirName n) ''a.jpg''
               [(''flagged'', JBool True)])
        = \<lparr> directoryWorkByPath =
              obj_set (?busy @ [(dirName n, newDirectoryWork (dirName n))]) (dirName n)
                (busyWork (dirName n)),
            directoryWorkCacheSize = int n + 1 \<rparr>"
    by (simp add: exportedStorePhotoWork_def got store_new)
  also have "\<dots> = crowd (Suc n) 0"
    using obj_set_append_fresh [OF fresh, of "newDirectoryWork (dirName n)" "[]"
        "busyWork (dirName n)"]
    by (simp add: crowd_def crowdEntries_def)
  finally have step: "snd (exportedStorePhotoWork (crowd n 0) sampleFiles 0 (dirName n) ''a.jpg''
               [(''flagged'', JBool True)])
        = crowd (Suc n) 0" .
  have "storeInAll emptyRegistry (Suc n)
          = snd (exportedStorePhotoWork (storeInAll emptyRegistry n) sampleFiles 0 (dirName n)
                   ''a.jpg'' [(''flagged'', JBool True)])"
    by (simp add: storeInAll_def)
  with Suc step show ?case
    by simp
qed

lemma finishAll_crowd: "k \<le> n \<Longrightarrow> finishAll (crowd n 0) k = crowd n k"
proof (induction k)
  case 0
  show ?case by (simp add: finishAll_def)
next
  case (Suc k)
  then have k: "k < n" and IH: "finishAll (crowd n 0) k = crowd n k"
    by simp_all
  let ?idle = "map (\<lambda>i. (dirName i, idleWork (dirName i))) [0..<k]"
  let ?busy = "map (\<lambda>i. (dirName i, busyWork (dirName i))) [Suc k..<n]"
  have entries: "directoryWorkByPath (crowd n k) = ?idle @ (dirName k, busyWork (dirName k)) # ?busy"
    using k by (simp add: crowd_def crowdEntries_def upt_conv_Cons)
  have fresh: "dirName k \<notin> set (Object_keys ?idle)"
    by (rule dirName_fresh) simp
  have step: "storeTimerFired (crowd n k) sampleFiles True (dirName k) = crowd n (Suc k)"
    using obj_get_append_fresh [OF fresh, of "busyWork (dirName k)" ?busy]
      obj_set_append_fresh [OF fresh, of "busyWork (dirName k)" ?busy "idleWork (dirName k)"]
    by (simp add: storeTimerFired_def entries cycle_done)
      (simp add: crowd_def crowdEntries_def busyWork_def)
  have "finishAll (crowd n 0) (Suc k)
          = storeTimerFired (finishAll (crowd n 0) k) sampleFiles True (dirName k)"
    by (simp add: finishAll_def)
  with IH step show ?case
    by simp
qed

lemma mixedRegistry_consistent: "consistent mixedRegistry"
proof -
  have "distinct (Object_keys (crowdEntries 97 97))"
    using crowd_consistent [of 97 97] by (simp add: consistent_def crowd_def)
  moreover have "''/fetching'' \<notin> set (Object_keys (crowdEntries 97 97))"
    "''/storing'' \<notin> set (Object_keys (crowdEntries 97 97))"
    "''/pending'' \<notin> set (Object_keys (crowdEntries 97 97))"
    by (simp_all add: other_name_fresh)
  moreover have "length (crowdEntries 97 97) = 97"
    by (simp add: crowdEntries_def)
  ultimately show ?thesis
    by (simp add: consistent_def mixedRegistry_def Object_keys_def)
qed

lemma mixedRegistry_busy:
  "busyEntries (directoryWorkByPath mixedRegistry)
     = [(''/fetching'', fetchingWork), (''/storing'', busyWork ''/storing''),
        (''/pending'', pendingWork)]"
proof -
  have "busyEntries (crowdEntries 97 97) = []"
    by (simp add: crowdEntries_def busyEntries_idle)
  moreover have "busyEntries [(''/fetching'', fetchingWork), (''/storing'', busyWork ''/storing''),
        (''/pending'', pendingWork)]
     = [(''/fetching'', fetchingWork), (''/storing'', busyWork ''/storing''),
        (''/pending'', pendingWork)]"
    by (simp add: busyEntries_def isIdle_def fetchingWork_def busyWork_def pendingWork_def
        idleWork_def newDirectoryWork_def)
  ultimately show ?thesis
    by (simp add: mixedRegistry_def busyEntries_def)
qed

lemma mixedRegistry_new: "obj_get (directoryWorkByPath mixedRegistry) ''/new'' = Undefined"
proof -
  have "''/new'' \<notin> set (Object_keys (directoryWorkByPath mixedRegistry))"
    using other_name_fresh [of "''/new''" 97 97]
    by (simp add: mixedRegistry_def Object_keys_def)
  then show ?thesis
    by (simp add: obj_get_fresh objectPrototypeMembers_def)
qed

theorem getDirectoryWork_eviction_witness:
  "consistent mixedRegistry
   \<and> obj_get (directoryWorkByPath mixedRegistry) ''/new'' = Undefined
   \<and> directoryWorkCacheSize mixedRegistry = 100
   \<and> fst (getDirectoryWork mixedRegistry ''/new'') = Some (newDirectoryWork ''/new'')
   \<and> set (directoryWorkByPath (snd (getDirectoryWork mixedRegistry ''/new'')))
       = {(''/fetching'', fetchingWork), (''/storing'', busyWork ''/storing''),
          (''/pending'', pendingWork), (''/new'', newDirectoryWork ''/new'')}"
proof -
  have size: "directoryWorkCacheSize mixedRegistry = 100"
    by (simp add: mixedRegistry_def)
  from getDirectoryWork_eviction [OF mixedRegistry_consistent mixedRegistry_new] size
  have "fst (getDirectoryWork mixedRegistry ''/new'') = Some (newDirectoryWork ''/new'')
        \<and> set (directoryWorkByPath (snd (getDirectoryWork mixedRegistry ''/new'')))
            = set (busyEntries (directoryWorkByPath mixedRegistry))
              \<union> {(''/new'', newDirectoryWork ''/new'')}"
    by (simp add: maxDirectoryWorkCacheSize_def)
  with mixedRegistry_consistent mixedRegistry_new size show ?thesis
    by (auto simp: mixedRegistry_busy)
qed

text \<open>
  A store in each of 101 directories: the request for the last one finds a hundred
  instances with a store under way and evicts none. When the store cycles have
  finished, all 101 instances are idle and the registry is still over the cap. A
  request for the path \<open>constructor\<close>, which is not in the registry, then finds
  \<open>Object.prototype.constructor\<close>: nothing is swept and nothing is inserted.
\<close>

theorem registry_over_cap_all_idle_counterexample:
  "int (length (directoryWorkByPath (finishAll (storeInAll emptyRegistry 101) 101)))
     > maxDirectoryWorkCacheSize
   \<and> busyEntries (directoryWorkByPath (finishAll (storeInAll emptyRegistry 101) 101)) = []
   \<and> getDirectoryWork (finishAll (storeInAll emptyRegistry 101) 101) ''constructor''
       = (None, finishAll (storeInAll emptyRegistry 101) 101)"
proof -
  have reg: "finishAll (storeInAll emptyRegistry 101) 101 = crowd 101 101"
    by (simp add: storeInAll_crowd finishAll_crowd)
  have "''constructor'' \<notin> set (Object_keys (directoryWorkByPath (crowd 101 101)))"
    by (simp add: crowd_def other_name_fresh)
  then have "obj_get (directoryWorkByPath (crowd 101 101)) ''constructor'' = Inherited"
    by (simp add: obj_get_fresh objectPrototypeMembers_def)
  then have member: "getDirectoryWork (crowd 101 101) ''constructor'' = (None, crowd 101 101)"
    by (rule getDirectoryWork_member)
  show ?thesis
    unfolding reg using member
    by (simp add: crowd_def crowdEntries_def busyEntries_idle maxDirectoryWorkCacheSize_def)
qed

text \<open>
  The method call on what such a request returns throws.
\<close>

lemma exportedFetchPhotoWork_no_instance:
  "fst (getDirectoryWork reg photoDir) = None \<Longrightarrow>
   exportedFetchPhotoWork ext reg files now photoDir photoFileName mw mh
     = (Inl TypeError, snd (getDirectoryWork reg photoDir))"
  by (auto simp: exportedFetchPhotoWork_def split: prod.splits)

end
